theory Spec2Isabelle
  imports Main "HOL-Library.Monad_Syntax"
begin

section \<open>Paged key-value cache kernels: a shallow embedding of csrc/cache_kernels.cu\<close>

text \<open>
  The file has four host entry points (\<open>swap_blocks\<close>, \<open>copy_blocks\<close>,
  \<open>reshape_and_cache\<close> with its flash variant, \<open>convert_fp8\<close>) and four device
  kernels. A host function checks its arguments, computes launch parameters and enqueues
  work on a stream; the work runs later. The embedding keeps the two halves apart:

  \<^item> a host function returns the error it raised, if any, together with the list of work
    items it enqueued (\<open>error option \<times> 'c work list\<close>);
  \<^item> a work item is a transformer of device and host memory that may fault
    (\<open>'c store \<Rightarrow> 'c store option\<close>); \<open>synchronize\<close> runs the enqueued items in stream
    order.

  C integers (\<open>int\<close>, \<open>int64_t\<close>) are modelled as \<open>int\<close>. Where the source stores a
  64-bit size or stride in an \<open>int\<close>, the model keeps the low 32 bits (\<open>to_int\<close>).
  Overflow of signed arithmetic is undefined in the source; the model computes such
  arithmetic in unbounded integers, and the properties below are stated for arguments
  where nothing overflows. Printing of the usage statistics is left out; the reads and the
  arithmetic the statistics code performs are kept, since they can raise.
\<close>

subsection \<open>Errors\<close>

text \<open>
  Every \<open>TORCH_CHECK\<close> of the source raises \<open>c10::Error\<close>. The constructors name the
  class the failed check belongs to: a residency, device or layer-count check is a
  \<open>PreconditionViolation\<close>; a rejected dtype tag or an undispatchable dtype is an
  \<open>UnsupportedOperation\<close>; indexing a tensor outside its shape is an \<open>IndexError\<close>;
  \<open>DivisionByZero\<close> is the host evaluating \<open>a % 0\<close>.
\<close>

datatype error = PreconditionViolation | UnsupportedOperation | IndexError | DivisionByZero

definition TORCH_CHECK :: "bool \<Rightarrow> error \<Rightarrow> error + unit" where
  "TORCH_CHECK cond e = (if cond then Inr () else Inl e)"

definition bnd :: "error + 'a \<Rightarrow> ('a \<Rightarrow> error + 'b) \<Rightarrow> error + 'b" where
  "bnd m f = (case m of Inl e \<Rightarrow> Inl e | Inr a \<Rightarrow> f a)"

subsection \<open>The type \<open>int\<close>\<close>

text \<open>
  An initialisation \<open>int n = e\<close> with a 64-bit \<open>e\<close> keeps the low 32 bits of \<open>e\<close>, read
  as a signed number. \<open>as_int\<close> is the same for an \<open>e\<close> that may raise.
\<close>

definition to_int :: "int \<Rightarrow> int" where
  "to_int v = (v + 2 ^ 31) mod 2 ^ 32 - 2 ^ 31"

definition as_int :: "error + int \<Rightarrow> error + int" where
  "as_int m = bnd m (\<lambda>v. Inr (to_int v))"

subsection \<open>Devices, dtypes and tensors\<close>

datatype DeviceType = CPU | CUDA | OtherDevice

datatype Device = Device (device_type: DeviceType) (index: int)

definition is_cuda :: "Device \<Rightarrow> bool" where
  "is_cuda d = (device_type d = CUDA)"

definition is_cpu :: "Device \<Rightarrow> bool" where
  "is_cpu d = (device_type d = CPU)"

datatype ScalarType =
  kByte | kChar | kShort | kInt | kLong | kHalf | kFloat | kDouble | kBool | kBFloat16

fun element_size :: "ScalarType \<Rightarrow> int" where
  "element_size kByte = 1"
| "element_size kChar = 1"
| "element_size kShort = 2"
| "element_size kInt = 4"
| "element_size kLong = 8"
| "element_size kHalf = 2"
| "element_size kFloat = 4"
| "element_size kDouble = 8"
| "element_size kBool = 1"
| "element_size kBFloat16 = 2"

text \<open>
  A tensor is its metadata and the address of its storage; the contents live in the
  store. \<open>data_ptr\<close> identifies a buffer: two tensors alias exactly when their
  \<open>data_ptr\<close> is the same.
\<close>

record Tensor =
  data_ptr :: nat
  device :: Device
  dtype :: ScalarType
  sizes :: "nat list"
  strides :: "nat list"

text \<open>\<open>t.size(d)\<close> and \<open>t.stride(d)\<close> raise when \<open>d\<close> is not a dimension of \<open>t\<close>.\<close>

definition size_of :: "Tensor \<Rightarrow> nat \<Rightarrow> error + int" where
  "size_of t d = (if d < length (sizes t) then Inr (int (sizes t ! d)) else Inl IndexError)"

definition stride_of :: "Tensor \<Rightarrow> nat \<Rightarrow> error + int" where
  "stride_of t d = (if d < length (strides t) then Inr (int (strides t ! d)) else Inl IndexError)"

text \<open>
  \<open>t[0].numel()\<close>: indexing raises on a tensor without dimensions and on one whose
  first dimension is empty; otherwise the slice has the product of the remaining sizes.
\<close>

definition first_numel :: "Tensor \<Rightarrow> error + int" where
  "first_numel t =
     (case sizes t of
        [] \<Rightarrow> Inl IndexError
      | n # rest \<Rightarrow> if n = 0 then Inl IndexError else Inr (int (prod_list rest)))"

text \<open>
  The block mapping is a two-column \<open>int64\<close> tensor: its device and its rows. The slot
  mapping is a one-dimensional \<open>int64\<close> tensor whose device is never inspected: its
  entries.
\<close>

record BlockMapping =
  bm_device :: Device
  bm_pairs :: "(int \<times> int) list"

subsection \<open>Memory, faults and streams\<close>

text \<open>
  The store maps a buffer address to the buffer's cells. A kernel sees a buffer as an
  array of the element type it was instantiated with; \<open>swap_blocks\<close> sees it as bytes.
  Reading or writing outside a buffer is undefined in the source; the model makes it a
  fault (\<open>None\<close>), which a device reports at the next synchronization.
\<close>

type_synonym 'c store = "nat \<Rightarrow> 'c list"

type_synonym 'c work = "'c store \<Rightarrow> 'c store option"

definition load :: "'c store \<Rightarrow> nat \<Rightarrow> int \<Rightarrow> 'c option" where
  "load st p i = (if 0 \<le> i \<and> i < int (length (st p)) then Some (st p ! nat i) else None)"

definition poke :: "'c store \<Rightarrow> nat \<Rightarrow> int \<Rightarrow> 'c \<Rightarrow> 'c store option" where
  "poke st p i v =
     (if 0 \<le> i \<and> i < int (length (st p)) then Some (st(p := (st p)[nat i := v])) else None)"

fun run_all :: "('a \<Rightarrow> 's \<Rightarrow> 's option) \<Rightarrow> 'a list \<Rightarrow> 's \<Rightarrow> 's option" where
  "run_all f [] s = Some s"
| "run_all f (x # xs) s = (case f x s of None \<Rightarrow> None | Some s' \<Rightarrow> run_all f xs s')"

definition synchronize :: "'c work list \<Rightarrow> 'c store \<Rightarrow> 'c store option" where
  "synchronize q st = run_all (\<lambda>w. w) q st"

text \<open>
  The loop \<open>for (int i = threadIdx.x; i < n; i += blockDim.x)\<close> of one thread: the
  indices it visits, in order. The counter is an \<open>int\<close>; these are its values as long as
  \<open>i + blockDim.x\<close> stays below \<open>2 ^ 31\<close>, which holds in every launch of this file
  with \<open>n\<close> at most \<open>2 ^ 30\<close>, where the block has at most \<open>n\<close> threads.
\<close>

function thread_loop :: "int \<Rightarrow> int \<Rightarrow> int \<Rightarrow> int list" where
  "thread_loop i n step = (if i < n \<and> 0 < step then i # thread_loop (i + step) n step else [])"
  by pat_completeness auto
termination
  by (relation "measure (\<lambda>(i, n, step). nat (n - i))") auto

declare thread_loop.simps [simp del]

text \<open>
  A kernel launch \<open>kernel<<<grid, block>>>\<close>: every block of the grid runs the kernel
  body once per thread. Blocks and threads run in parallel on the device; the model runs
  them one after the other, blocks in grid order and threads by index. The claims below
  are about launches whose writes do not conflict, where the order does not show. A
  launch with no block or no thread runs nothing (the runtime rejects the configuration
  and the source never reads the launch status). The runtime also rejects a grid with
  more than 65535 blocks in its second dimension.
\<close>

definition launch :: "('b \<Rightarrow> int \<Rightarrow> int \<Rightarrow> 'c work) \<Rightarrow> 'b list \<Rightarrow> int \<Rightarrow> 'c work" where
  "launch body grid blockDim =
     run_all (\<lambda>blockIdx. run_all (\<lambda>threadIdx. body blockIdx threadIdx blockDim) [0..blockDim - 1]) grid"

text \<open>C++ integer division truncates towards zero.\<close>

definition c_div :: "int \<Rightarrow> int \<Rightarrow> int" where
  "c_div a b = sgn a * sgn b * (\<bar>a\<bar> div \<bar>b\<bar>)"

definition c_mod :: "int \<Rightarrow> int \<Rightarrow> int" where
  "c_mod a b = a - b * c_div a b"

subsection \<open>swap_blocks\<close>

datatype cudaMemcpyKind =
  cudaMemcpyDeviceToDevice | cudaMemcpyDeviceToHost | cudaMemcpyHostToDevice

text \<open>
  \<open>cudaMemcpyAsync(dst + dst_off, src + src_off, count, kind, stream)\<close>: the bytes are
  read, then written. A range outside either buffer faults.
\<close>

definition cudaMemcpyAsync :: "nat \<Rightarrow> int \<Rightarrow> nat \<Rightarrow> int \<Rightarrow> int \<Rightarrow> cudaMemcpyKind \<Rightarrow> 'c work" where
  "cudaMemcpyAsync dst dst_off src src_off count kind st =
     (if 0 \<le> count \<and> 0 \<le> src_off \<and> src_off + count \<le> int (length (st src))
         \<and> 0 \<le> dst_off \<and> dst_off + count \<le> int (length (st dst))
      then Some (st(dst := take (nat dst_off) (st dst)
                           @ take (nat count) (drop (nat src_off) (st src))
                           @ drop (nat (dst_off + count)) (st dst)))
      else None)"

definition memcpy_type_of :: "Device \<Rightarrow> Device \<Rightarrow> error + cudaMemcpyKind" where
  "memcpy_type_of src_device dst_device =
     (if is_cuda src_device \<and> is_cuda dst_device then
        (if index src_device = index dst_device then Inr cudaMemcpyDeviceToDevice
         else Inl PreconditionViolation)
      else if is_cuda src_device \<and> is_cpu dst_device then Inr cudaMemcpyDeviceToHost
      else if is_cpu src_device \<and> is_cuda dst_device then Inr cudaMemcpyHostToDevice
      else Inl PreconditionViolation)"

text \<open>
  The loop over the mapping. Each round evaluates
  \<open>src.size(0) % block_size_in_bytes\<close> for the statistics before it enqueues its copy,
  so a zero block size stops the call at the first pair. \<open>q\<close> is what the call has
  enqueued so far.
\<close>

fun swap_blocks_loop ::
  "nat \<Rightarrow> nat \<Rightarrow> int \<Rightarrow> cudaMemcpyKind \<Rightarrow> (int \<times> int) list \<Rightarrow> 'c work list
    \<Rightarrow> error option \<times> 'c work list" where
  "swap_blocks_loop src_ptr dst_ptr block_size_in_bytes memcpy_type [] q = (None, q)"
| "swap_blocks_loop src_ptr dst_ptr block_size_in_bytes memcpy_type
      ((src_block_number, dst_block_number) # rest) q =
     (let src_offset = src_block_number * block_size_in_bytes;
          dst_offset = dst_block_number * block_size_in_bytes
      in if block_size_in_bytes = 0 then (Some DivisionByZero, q)
         else swap_blocks_loop src_ptr dst_ptr block_size_in_bytes memcpy_type rest
                (q @ [cudaMemcpyAsync dst_ptr dst_offset src_ptr src_offset
                        block_size_in_bytes memcpy_type]))"

definition swap_blocks :: "Tensor \<Rightarrow> Tensor \<Rightarrow> BlockMapping \<Rightarrow> error option \<times> 'c work list" where
  "swap_blocks src dst block_mapping =
     (case memcpy_type_of (device src) (device dst) of
        Inl e \<Rightarrow> (Some e, [])
      | Inr memcpy_type \<Rightarrow>
          if \<not> is_cpu (bm_device block_mapping) then (Some PreconditionViolation, [])
          else (case first_numel src of
                  Inl e \<Rightarrow> (Some e, [])
                | Inr numel \<Rightarrow>
                    swap_blocks_loop (data_ptr src) (data_ptr dst)
                      (element_size (dtype src) * numel) memcpy_type
                      (bm_pairs block_mapping) []))"

subsection \<open>copy_blocks\<close>

text \<open>
  The loop body \<open>cache[dst_block_offset + i] = cache[src_block_offset + i]\<close>.
\<close>

definition copy_elem :: "nat \<Rightarrow> int \<Rightarrow> int \<Rightarrow> int \<Rightarrow> 'c work" where
  "copy_elem cache src_block_offset dst_block_offset i st =
     (let src_offset = src_block_offset + i;
          dst_offset = dst_block_offset + i
      in do { v \<leftarrow> load st cache src_offset; poke st cache dst_offset v })"

text \<open>
  One thread of \<open>copy_blocks_kernel\<close>. The block index is (layer, pair); the thread
  copies its share of the key block, then its share of the value block, element by
  element, reading and writing the same buffer.
\<close>

definition copy_blocks_kernel ::
  "nat list \<Rightarrow> nat list \<Rightarrow> (int \<times> int) list \<Rightarrow> int \<Rightarrow> nat \<times> nat \<Rightarrow> int \<Rightarrow> int \<Rightarrow> 'c work" where
  "copy_blocks_kernel key_cache_ptrs value_cache_ptrs block_mapping numel_per_block
      blockIdx threadIdx blockDim st =
     (let layer_idx = fst blockIdx;
          pair_idx = snd blockIdx;
          key_cache = key_cache_ptrs ! layer_idx;
          value_cache = value_cache_ptrs ! layer_idx;
          src_block_number = fst (block_mapping ! pair_idx);
          dst_block_number = snd (block_mapping ! pair_idx);
          src_block_offset = src_block_number * numel_per_block;
          dst_block_offset = dst_block_number * numel_per_block
      in do {
           st1 \<leftarrow> run_all (copy_elem key_cache src_block_offset dst_block_offset)
                   (thread_loop threadIdx numel_per_block blockDim) st;
           run_all (copy_elem value_cache src_block_offset dst_block_offset)
             (thread_loop threadIdx numel_per_block blockDim) st1 })"

text \<open>
  Modelled from the spec: the macro \<open>VLLM_DISPATCH_FLOATING_AND_BYTE_TYPES\<close> of
  dispatch_utils.h is not among the sources. Section 4.2: the dispatch spans the
  supported floating representations plus an opaque byte type; any other dtype raises.
\<close>

definition VLLM_DISPATCH_FLOATING_TYPES :: "ScalarType \<Rightarrow> error + unit" where
  "VLLM_DISPATCH_FLOATING_TYPES t =
     (if t = kFloat \<or> t = kHalf \<or> t = kBFloat16 then Inr () else Inl UnsupportedOperation)"

definition VLLM_DISPATCH_FLOATING_AND_BYTE_TYPES :: "ScalarType \<Rightarrow> error + unit" where
  "VLLM_DISPATCH_FLOATING_AND_BYTE_TYPES t =
     (if t = kFloat \<or> t = kHalf \<or> t = kBFloat16 \<or> t = kByte then Inr ()
      else Inl UnsupportedOperation)"

text \<open>
  The statistics loop of \<open>copy_blocks\<close>: for every layer and every pair it evaluates
  \<open>key_caches[layer].size(0) % numel_per_block\<close>.
\<close>

fun copy_blocks_stats :: "Tensor list \<Rightarrow> int \<Rightarrow> int \<Rightarrow> error + unit" where
  "copy_blocks_stats [] num_pairs numel_per_block = Inr ()"
| "copy_blocks_stats (key_cache # rest) num_pairs numel_per_block =
     (if num_pairs \<le> 0 then copy_blocks_stats rest num_pairs numel_per_block
      else bnd (size_of key_cache 0) (\<lambda>_.
             if numel_per_block = 0 then Inl DivisionByZero
             else copy_blocks_stats rest num_pairs numel_per_block))"

definition copy_blocks :: "Tensor list \<Rightarrow> Tensor list \<Rightarrow> BlockMapping \<Rightarrow> error option \<times> 'c work list" where
  "copy_blocks key_caches value_caches block_mapping =
     (let num_layers = length key_caches in
      if num_layers \<noteq> length value_caches then (Some PreconditionViolation, [])
      else if num_layers = 0 then (None, [])
      else
        let cache_device = device (key_caches ! 0) in
        if \<not> is_cuda cache_device then (Some PreconditionViolation, [])
        else
          let key_cache_ptrs = map data_ptr key_caches;
              value_cache_ptrs = map data_ptr value_caches;
              num_pairs = to_int (int (length (bm_pairs block_mapping)))
          in case bnd (as_int (first_numel (key_caches ! 0))) (\<lambda>numel_per_block.
                  bnd (copy_blocks_stats key_caches num_pairs numel_per_block) (\<lambda>_.
                  bnd (VLLM_DISPATCH_FLOATING_AND_BYTE_TYPES (dtype (key_caches ! 0))) (\<lambda>_.
                  Inr (launch (copy_blocks_kernel key_cache_ptrs value_cache_ptrs
                                 (bm_pairs block_mapping) numel_per_block)
                         (if num_pairs \<le> 65535
                          then List.product [0..<num_layers] [0..<nat num_pairs] else [])
                         (min 1024 numel_per_block)))))
             of Inl e \<Rightarrow> (Some e, [])
              | Inr k \<Rightarrow> (None, [k]))"

subsection \<open>reshape_and_cache and reshape_and_cache_flash\<close>

datatype Fp8KVCacheDataType = kAuto | kFp8E4M3 | kFp8E5M2

text \<open>The C++ types a kernel template is instantiated with.\<close>

datatype ctype = c_float | c_uint16_t | c_nv_bfloat16 | c_uint8_t

text \<open>
  \<open>fp8::scaled_convert<Tout, Tin, kv_dt>\<close> lives in quant_utils.cuh, which is not among
  the sources: the kernels take it as the parameter \<open>scaled_convert\<close>, applied to the
  template arguments, the element and the scale. The scale has an arbitrary type \<open>'s\<close>.
  The host holds it as a \<open>double\<close> and the kernel receives it as a \<open>float\<close>; the
  parameter takes the host's scale and stands for that conversion followed by the
  template function.

  The two target indices of \<open>reshape_and_cache_kernel\<close>, from the block and the
  offset of the slot and the channel index \<open>i\<close>.
\<close>

definition tgt_key_idx :: "int \<Rightarrow> int \<Rightarrow> int \<Rightarrow> int \<Rightarrow> int \<Rightarrow> int \<Rightarrow> int \<Rightarrow> int" where
  "tgt_key_idx block_idx block_offset i num_heads head_size block_size x =
     (let head_idx = c_div i head_size;
          head_offset = c_mod i head_size;
          x_idx = c_div head_offset x;
          x_offset = c_mod head_offset x
      in block_idx * num_heads * (c_div head_size x) * block_size * x
         + head_idx * (c_div head_size x) * block_size * x
         + x_idx * block_size * x + block_offset * x + x_offset)"

definition tgt_value_idx :: "int \<Rightarrow> int \<Rightarrow> int \<Rightarrow> int \<Rightarrow> int \<Rightarrow> int \<Rightarrow> int" where
  "tgt_value_idx block_idx block_offset i num_heads head_size block_size =
     (let head_idx = c_div i head_size;
          head_offset = c_mod i head_size
      in block_idx * num_heads * head_size * block_size
         + head_idx * head_size * block_size
         + head_offset * block_size + block_offset)"

text \<open>
  The body of the channel loop: read the key and the value element of the token, write
  them (converted unless the cache dtype is \<open>kAuto\<close>) at the two target indices.
  Dividing by a zero \<open>head_size\<close> or \<open>x\<close> is undefined in the source: a fault.
\<close>

definition reshape_and_cache_elem ::
  "(ctype \<Rightarrow> ctype \<Rightarrow> Fp8KVCacheDataType \<Rightarrow> 'c \<Rightarrow> 's \<Rightarrow> 'c) \<Rightarrow> ctype \<Rightarrow> ctype \<Rightarrow> Fp8KVCacheDataType
    \<Rightarrow> nat \<Rightarrow> nat \<Rightarrow> nat \<Rightarrow> nat \<Rightarrow> int \<Rightarrow> int \<Rightarrow> int \<Rightarrow> int \<Rightarrow> int \<Rightarrow> int \<Rightarrow> 's
    \<Rightarrow> int \<Rightarrow> int \<Rightarrow> int \<Rightarrow> int \<Rightarrow> 'c work" where
  "reshape_and_cache_elem scaled_convert scalar_t cache_t kv_dt
      key value key_cache value_cache
      key_stride value_stride num_heads head_size block_size x kv_scale
      token_idx block_idx block_offset i st =
     (if head_size = 0 \<or> x = 0 then None
      else
        let src_key_idx = token_idx * key_stride + i;
            src_value_idx = token_idx * value_stride + i
        in do {
             tgt_key \<leftarrow> load st key src_key_idx;
             tgt_value \<leftarrow> load st value src_value_idx;
             st1 \<leftarrow> poke st key_cache
                     (tgt_key_idx block_idx block_offset i num_heads head_size block_size x)
                     (if kv_dt = kAuto then tgt_key
                      else scaled_convert cache_t scalar_t kv_dt tgt_key kv_scale);
             poke st1 value_cache
               (tgt_value_idx block_idx block_offset i num_heads head_size block_size)
               (if kv_dt = kAuto then tgt_value
                else scaled_convert cache_t scalar_t kv_dt tgt_value kv_scale) })"

text \<open>
  One thread of \<open>reshape_and_cache_kernel\<close>; the block index is the token. A token
  with a negative slot returns before anything is read or written.
\<close>

definition reshape_and_cache_kernel ::
  "(ctype \<Rightarrow> ctype \<Rightarrow> Fp8KVCacheDataType \<Rightarrow> 'c \<Rightarrow> 's \<Rightarrow> 'c) \<Rightarrow> ctype \<Rightarrow> ctype \<Rightarrow> Fp8KVCacheDataType
    \<Rightarrow> nat \<Rightarrow> nat \<Rightarrow> nat \<Rightarrow> nat \<Rightarrow> int list \<Rightarrow> int \<Rightarrow> int \<Rightarrow> int \<Rightarrow> int \<Rightarrow> int \<Rightarrow> int \<Rightarrow> 's
    \<Rightarrow> int \<Rightarrow> int \<Rightarrow> int \<Rightarrow> 'c work" where
  "reshape_and_cache_kernel scaled_convert scalar_t cache_t kv_dt
      key value key_cache value_cache slot_mapping
      key_stride value_stride num_heads head_size block_size x kv_scale
      blockIdx threadIdx blockDim st =
     (let token_idx = blockIdx in
      if \<not> (0 \<le> token_idx \<and> token_idx < int (length slot_mapping)) then None
      else
        let slot_idx = slot_mapping ! nat token_idx in
        if slot_idx < 0 then Some st
        else if block_size = 0 then None
        else
          let block_idx = c_div slot_idx block_size;
              block_offset = c_mod slot_idx block_size;
              n = num_heads * head_size
          in run_all (reshape_and_cache_elem scaled_convert scalar_t cache_t kv_dt
                        key value key_cache value_cache
                        key_stride value_stride num_heads head_size block_size x kv_scale
                        token_idx block_idx block_offset)
               (thread_loop threadIdx n blockDim) st)"

definition reshape_and_cache_flash_kernel ::
  "nat \<Rightarrow> nat \<Rightarrow> nat \<Rightarrow> nat \<Rightarrow> int list \<Rightarrow> int \<Rightarrow> int \<Rightarrow> int \<Rightarrow> int \<Rightarrow> int \<Rightarrow> int
    \<Rightarrow> int \<Rightarrow> int \<Rightarrow> int \<Rightarrow> 'c work" where
  "reshape_and_cache_flash_kernel key value k_cache v_cache slot_mapping
      block_stride key_stride value_stride num_heads head_size block_size
      blockIdx threadIdx blockDim st =
     (let token_idx = blockIdx in
      if \<not> (0 \<le> token_idx \<and> token_idx < int (length slot_mapping)) then None
      else
        let slot_idx = slot_mapping ! nat token_idx in
        if slot_idx < 0 then Some st
        else if block_size = 0 then None
        else
          let block_idx = c_div slot_idx block_size;
              block_offset = c_mod slot_idx block_size;
              n = num_heads * head_size
          in run_all (\<lambda>i s.
                 if head_size = 0 then None
                 else
                   let src_key_idx = token_idx * key_stride + i;
                       src_value_idx = token_idx * value_stride + i;
                       head_idx = c_div i head_size;
                       head_offset = c_mod i head_size;
                       tgt_value_idx =
                         block_idx * block_stride + block_offset * num_heads * head_size
                         + head_idx * head_size + head_offset
                   in do {
                        k \<leftarrow> load s key src_key_idx;
                        s1 \<leftarrow> poke s k_cache tgt_value_idx k;
                        v \<leftarrow> load s1 value src_value_idx;
                        poke s1 v_cache tgt_value_idx v })
               (thread_loop threadIdx n blockDim) st)"

text \<open>
  \<open>reshape_and_cache\<close>. The macro \<open>DISPATCH_BY_KV_CACHE_DTYPE\<close> is not among the
  sources: it is the parameter \<open>DISPATCH\<close>, which maps the input dtype and the cache
  dtype tag to the template arguments of the kernel, or raises. The statistics loop reads
  \<open>slot_mapping[i]\<close> on the host for every token, which raises where the slot mapping is
  shorter than the key tensor.
\<close>

definition reshape_and_cache ::
  "(ScalarType \<Rightarrow> string \<Rightarrow> error + ctype \<times> ctype \<times> Fp8KVCacheDataType)
    \<Rightarrow> (ctype \<Rightarrow> ctype \<Rightarrow> Fp8KVCacheDataType \<Rightarrow> 'c \<Rightarrow> 's \<Rightarrow> 'c)
    \<Rightarrow> Tensor \<Rightarrow> Tensor \<Rightarrow> Tensor \<Rightarrow> Tensor \<Rightarrow> int list \<Rightarrow> string \<Rightarrow> 's
    \<Rightarrow> error option \<times> 'c work list" where
  "reshape_and_cache DISPATCH scaled_convert key value key_cache value_cache slot_mapping
      kv_cache_dtype kv_scale =
     (case bnd (as_int (size_of key 0)) (\<lambda>num_tokens.
           bnd (as_int (size_of key 1)) (\<lambda>num_heads.
           bnd (as_int (size_of key 2)) (\<lambda>head_size.
           bnd (as_int (size_of key_cache 3)) (\<lambda>block_size.
           bnd (as_int (size_of key_cache 4)) (\<lambda>x.
           bnd (as_int (stride_of key 0)) (\<lambda>key_stride.
           bnd (as_int (stride_of value 0)) (\<lambda>value_stride.
           bnd (TORCH_CHECK (num_tokens \<le> int (length slot_mapping)) IndexError) (\<lambda>_.
           bnd (DISPATCH (dtype key) kv_cache_dtype) (\<lambda>(KV_T, CACHE_T, KV_DTYPE).
           Inr (launch (reshape_and_cache_kernel scaled_convert KV_T CACHE_T KV_DTYPE
                          (data_ptr key) (data_ptr value)
                          (data_ptr key_cache) (data_ptr value_cache) slot_mapping
                          key_stride value_stride num_heads head_size block_size x kv_scale)
                  [0..num_tokens - 1] (min (num_heads * head_size) 512)))))))))))
      of Inl e \<Rightarrow> (Some e, [])
       | Inr k \<Rightarrow> (None, [k]))"

text \<open>
  \<open>reshape_and_cache_flash\<close>. \<open>k_cache.stride(0)\<close> is read twice: into the \<open>int\<close>
  the kernel receives, and in full for the comparison with \<open>v_cache.stride(0)\<close>. The
  kernel arguments \<open>value.data_ptr<scalar_t>()\<close>, \<open>k_cache.data_ptr<scalar_t>()\<close> and
  \<open>v_cache.data_ptr<scalar_t>()\<close>, with \<open>scalar_t\<close> the dtype of \<open>key\<close>, raise on a
  tensor of another dtype.
\<close>

definition reshape_and_cache_flash ::
  "Tensor \<Rightarrow> Tensor \<Rightarrow> Tensor \<Rightarrow> Tensor \<Rightarrow> int list \<Rightarrow> string \<Rightarrow> error option \<times> 'c work list" where
  "reshape_and_cache_flash key value k_cache v_cache slot_mapping kv_cache_dtype =
     (case bnd (TORCH_CHECK (kv_cache_dtype = ''auto'') UnsupportedOperation) (\<lambda>_.
           bnd (as_int (size_of key 0)) (\<lambda>num_tokens.
           bnd (as_int (size_of key 1)) (\<lambda>num_heads.
           bnd (as_int (size_of key 2)) (\<lambda>head_size.
           bnd (as_int (size_of k_cache 1)) (\<lambda>block_size.
           bnd (as_int (stride_of key 0)) (\<lambda>key_stride.
           bnd (as_int (stride_of value 0)) (\<lambda>value_stride.
           bnd (as_int (stride_of k_cache 0)) (\<lambda>block_stride.
           bnd (stride_of k_cache 0) (\<lambda>k_stride.
           bnd (stride_of v_cache 0) (\<lambda>v_stride.
           bnd (TORCH_CHECK (k_stride = v_stride) PreconditionViolation) (\<lambda>_.
           bnd (TORCH_CHECK (num_tokens \<le> int (length slot_mapping)) IndexError) (\<lambda>_.
           bnd (VLLM_DISPATCH_FLOATING_TYPES (dtype key)) (\<lambda>_.
           bnd (TORCH_CHECK (dtype value = dtype key \<and> dtype k_cache = dtype key
                             \<and> dtype v_cache = dtype key) PreconditionViolation) (\<lambda>_.
           Inr (launch (reshape_and_cache_flash_kernel
                          (data_ptr key) (data_ptr value)
                          (data_ptr k_cache) (data_ptr v_cache) slot_mapping
                          block_stride key_stride value_stride num_heads head_size block_size)
                  [0..num_tokens - 1] (min (num_heads * head_size) 512))))))))))))))))
      of Inl e \<Rightarrow> (Some e, [])
       | Inr k \<Rightarrow> (None, [k]))"

subsection \<open>convert_fp8\<close>

text \<open>
  The loop body \<open>dst_cache[idx] = scaled_convert<Tout, Tin, kv_dt>(src_cache[idx], kv_scale)\<close>.
\<close>

definition convert_fp8_elem ::
  "(ctype \<Rightarrow> ctype \<Rightarrow> Fp8KVCacheDataType \<Rightarrow> 'c \<Rightarrow> 's \<Rightarrow> 'c) \<Rightarrow> ctype \<Rightarrow> ctype \<Rightarrow> Fp8KVCacheDataType
    \<Rightarrow> nat \<Rightarrow> nat \<Rightarrow> 's \<Rightarrow> int \<Rightarrow> int \<Rightarrow> int \<Rightarrow> 'c work" where
  "convert_fp8_elem scaled_convert Tout Tin kv_dt src_cache dst_cache kv_scale block_stride
      block_idx i st =
     (let idx = block_idx * block_stride + i
      in do {
           v \<leftarrow> load st src_cache idx;
           poke st dst_cache idx (scaled_convert Tout Tin kv_dt v kv_scale) })"

definition convert_fp8_kernel ::
  "(ctype \<Rightarrow> ctype \<Rightarrow> Fp8KVCacheDataType \<Rightarrow> 'c \<Rightarrow> 's \<Rightarrow> 'c) \<Rightarrow> ctype \<Rightarrow> ctype \<Rightarrow> Fp8KVCacheDataType
    \<Rightarrow> nat \<Rightarrow> nat \<Rightarrow> 's \<Rightarrow> int \<Rightarrow> int \<Rightarrow> int \<Rightarrow> int \<Rightarrow> 'c work" where
  "convert_fp8_kernel scaled_convert Tout Tin kv_dt src_cache dst_cache kv_scale block_stride
      blockIdx threadIdx blockDim st =
     (let block_idx = blockIdx in
      run_all (convert_fp8_elem scaled_convert Tout Tin kv_dt src_cache dst_cache kv_scale
                 block_stride block_idx)
        (thread_loop threadIdx block_stride blockDim) st)"

text \<open>
  The two \<open>if\<close> chains of \<open>convert_fp8\<close> that pick the instantiation
  \<open>CALL_CONVERT_FP8(Tout, Tin, KV_DTYPE)\<close> from the dtypes; neither chain has a final
  \<open>else\<close>, so a pair that matches no branch launches nothing (\<open>None\<close>).
\<close>

definition convert_fp8_types :: "ScalarType \<Rightarrow> ScalarType \<Rightarrow> (ctype \<times> ctype) option" where
  "convert_fp8_types src_dtype dst_dtype =
     (if src_dtype = kFloat then Some (c_uint8_t, c_float)
      else if src_dtype = kHalf then Some (c_uint8_t, c_uint16_t)
      else if src_dtype = kBFloat16 then Some (c_uint8_t, c_nv_bfloat16)
      else if dst_dtype = kFloat then Some (c_float, c_uint8_t)
      else if dst_dtype = kHalf then Some (c_uint16_t, c_uint8_t)
      else if dst_dtype = kBFloat16 then Some (c_nv_bfloat16, c_uint8_t)
      else None)"

definition convert_fp8 ::
  "(ctype \<Rightarrow> ctype \<Rightarrow> Fp8KVCacheDataType \<Rightarrow> 'c \<Rightarrow> 's \<Rightarrow> 'c)
    \<Rightarrow> Tensor \<Rightarrow> Tensor \<Rightarrow> 's \<Rightarrow> string \<Rightarrow> error option \<times> 'c work list" where
  "convert_fp8 scaled_convert dst_cache src_cache kv_scale kv_cache_dtype =
     (let src_device = device src_cache;
          dst_device = device dst_cache
      in case bnd (TORCH_CHECK (is_cuda src_device) PreconditionViolation) (\<lambda>_.
              bnd (TORCH_CHECK (is_cuda dst_device) PreconditionViolation) (\<lambda>_.
              bnd (TORCH_CHECK (index src_device = index dst_device) PreconditionViolation) (\<lambda>_.
              bnd (size_of src_cache 0) (\<lambda>num_blocks.
              bnd (stride_of src_cache 0) (\<lambda>block_stride.
              bnd (if kv_cache_dtype = ''auto'' then Inr kAuto
                   else if kv_cache_dtype = ''fp8'' \<or> kv_cache_dtype = ''fp8_e4m3''
                     then Inr kFp8E4M3
                   else Inl UnsupportedOperation) (\<lambda>KV_DTYPE.
              Inr (case convert_fp8_types (dtype src_cache) (dtype dst_cache) of
                     None \<Rightarrow> []
                   | Some (Tout, Tin) \<Rightarrow>
                       [launch (convert_fp8_kernel scaled_convert Tout Tin KV_DTYPE
                                  (data_ptr src_cache) (data_ptr dst_cache) kv_scale block_stride)
                          [0..num_blocks - 1] (min block_stride 512)])))))))
         of Inl e \<Rightarrow> (Some e, [])
          | Inr q \<Rightarrow> (None, q))"

text \<open>
  The widths of the C++ types the kernels are instantiated with. In the properties of
  \<open>convert_fp8\<close> a cell holds the bit pattern of an element, as a natural number; a
  pattern is a value of the type \<open>T\<close> when it fits the width of \<open>T\<close>.
\<close>

fun ctype_bits :: "ctype \<Rightarrow> nat" where
  "ctype_bits c_float = 32"
| "ctype_bits c_uint16_t = 16"
| "ctype_bits c_nv_bfloat16 = 16"
| "ctype_bits c_uint8_t = 8"

definition representable :: "ctype \<Rightarrow> nat \<Rightarrow> bool" where
  "representable T v = (v < 2 ^ ctype_bits T)"

text \<open>
  Modelled from the spec: \<open>fp8::scaled_convert\<close> (quant_utils.cuh) is not among the
  sources, so the kernels take it as a parameter. The call
  \<open>dst_cache[idx] = scaled_convert<Tout, Tin, kv_dt>(src_cache[idx], kv_scale)\<close> stores
  its result in a cell of type \<open>Tout\<close>: what it contributes is a value of \<open>Tout\<close>
  (\<open>returns_Tout\<close>). Section 4.4 says of the passthrough encoding (\<open>kAuto\<close>) that it is
  exactly invertible; for a candidate \<open>scaled_convert\<close>, \<open>passthrough_invertible\<close> says
  so on the values \<open>R\<close> of the type \<open>T\<close>: converting a value of \<open>R\<close> into the type
  \<open>T'\<close> and back gives the value.
\<close>

definition returns_Tout :: "(ctype \<Rightarrow> ctype \<Rightarrow> Fp8KVCacheDataType \<Rightarrow> nat \<Rightarrow> 's \<Rightarrow> nat) \<Rightarrow> bool" where
  "returns_Tout scaled_convert =
     (\<forall>Tout Tin kv_dt v kv_scale. representable Tout (scaled_convert Tout Tin kv_dt v kv_scale))"

definition passthrough_invertible ::
  "(ctype \<Rightarrow> ctype \<Rightarrow> Fp8KVCacheDataType \<Rightarrow> 'c \<Rightarrow> 's \<Rightarrow> 'c) \<Rightarrow> ctype \<Rightarrow> ctype \<Rightarrow> 's \<Rightarrow> 'c set \<Rightarrow> bool" where
  "passthrough_invertible scaled_convert T T' kv_scale R =
     (\<forall>v \<in> R. scaled_convert T T' kAuto (scaled_convert T' T kAuto v kv_scale) kv_scale = v)"

subsection \<open>Notions used to state the properties\<close>

text \<open>
  A block mapping is valid for a transfer with blocks of \<open>block_size\<close> cells when no
  destination block is named twice and every source and destination block lies inside its
  buffer.
\<close>

definition valid_block_mapping :: "(int \<times> int) list \<Rightarrow> int \<Rightarrow> nat \<Rightarrow> nat \<Rightarrow> bool" where
  "valid_block_mapping pairs block_size src_len dst_len =
     (distinct (map snd pairs) \<and>
      (\<forall>(s, d) \<in> set pairs. 0 \<le> s \<and> (s + 1) * block_size \<le> int src_len
                              \<and> 0 \<le> d \<and> (d + 1) * block_size \<le> int dst_len))"



text \<open>
  The steps of a launch whose thread bodies are loops: for every block of the grid and
  every thread of the block, the loop indices \<open>idx block thread\<close> of that thread, in
  the order in which the model runs them.
\<close>

definition launch_steps :: "('b \<Rightarrow> int \<Rightarrow> 'i list) \<Rightarrow> 'b list \<Rightarrow> int \<Rightarrow> ('b \<times> 'i) list" where
  "launch_steps idx grid bdim =
     concat (map (\<lambda>b. concat (map (\<lambda>tid. map (Pair b) (idx b tid)) [0..bdim - 1])) grid)"

section \<open>Properties\<close>

subsection \<open>Memory and loops\<close>

lemma run_all_append:
  "run_all f (xs @ ys) s = (case run_all f xs s of None \<Rightarrow> None | Some s' \<Rightarrow> run_all f ys s')"
  by (induction xs arbitrary: s) (auto split: option.splits)

lemma load_Some_iff: "(load st p i = Some v) = (0 \<le> i \<and> i < int (length (st p)) \<and> st p ! nat i = v)"
  by (auto simp: load_def)

lemma load_None_iff: "(load st p i = None) = (\<not> (0 \<le> i \<and> i < int (length (st p))))"
  by (auto simp: load_def)

lemma poke_Some_iff: "(\<exists>st'. poke st p i v = Some st') = (0 \<le> i \<and> i < int (length (st p)))"
  by (auto simp: poke_def)

lemma poke_length: "poke st p i v = Some st' \<Longrightarrow> length (st' q) = length (st q)"
  by (auto simp: poke_def split: if_splits)

lemma load_poke:
  "poke st p i v = Some st' \<Longrightarrow> load st' q j = (if q = p \<and> j = i then Some v else load st q j)"
  by (auto simp: poke_def load_def nth_list_update split: if_splits)

lemma run_all_concat:
  "run_all (\<lambda>xs. run_all f xs) xss s = run_all f (concat xss) s"
  by (induction xss arbitrary: s) (auto simp: run_all_append split: option.splits)

lemma run_all_establish:
  assumes step: "\<And>x s. x \<in> set xs \<Longrightarrow> I s \<Longrightarrow>
            \<exists>s'. f x s = Some s' \<and> I s' \<and> Q (g x) s' \<and> (\<forall>y. y \<noteq> g x \<longrightarrow> Q y s \<longrightarrow> Q y s')"
    and init: "I s"
  shows "\<exists>s'. run_all f xs s = Some s' \<and> I s' \<and> (\<forall>x\<in>set xs. Q (g x) s')
            \<and> (\<forall>y. y \<notin> g ` set xs \<longrightarrow> Q y s \<longrightarrow> Q y s')"
  using step init
proof (induction xs arbitrary: s)
  case Nil
  then show ?case by simp
next
  case (Cons x xs)
  from Cons.prems(1)[of x s] Cons.prems(2)
  obtain s1 where s1: "f x s = Some s1" "I s1" "Q (g x) s1"
    and keep1: "\<forall>y. y \<noteq> g x \<longrightarrow> Q y s \<longrightarrow> Q y s1"
    by auto
  have "\<exists>s'. run_all f xs s1 = Some s' \<and> I s' \<and> (\<forall>x\<in>set xs. Q (g x) s')
            \<and> (\<forall>y. y \<notin> g ` set xs \<longrightarrow> Q y s1 \<longrightarrow> Q y s')"
    by (rule Cons.IH) (use Cons.prems(1) s1 in auto)
  then obtain s' where s': "run_all f xs s1 = Some s'" "I s'" "\<forall>x\<in>set xs. Q (g x) s'"
    and keep2: "\<forall>y. y \<notin> g ` set xs \<longrightarrow> Q y s1 \<longrightarrow> Q y s'"
    by auto
  have "Q (g x) s'"
  proof (cases "g x \<in> g ` set xs")
    case True
    then show ?thesis using s'(3) by auto
  next
    case False
    then show ?thesis using keep2 s1(3) by auto
  qed
  moreover have "\<forall>y. y \<notin> g ` set (x # xs) \<longrightarrow> Q y s \<longrightarrow> Q y s'"
    using keep1 keep2 by auto
  ultimately show ?case using s1(1) s' by auto
qed

lemma thread_loop_set:
  "0 < step \<Longrightarrow> set (thread_loop i n step) = {j. i \<le> j \<and> j < n \<and> (j - i) mod step = 0}"
proof (induction i n step rule: thread_loop.induct)
  case (1 i n step)
  show ?case
  proof (cases "i < n")
    case True
    have "set (thread_loop i n step) = insert i (set (thread_loop (i + step) n step))"
      using True 1(2) by (subst thread_loop.simps) simp
    also have "\<dots> = insert i {j. i + step \<le> j \<and> j < n \<and> (j - (i + step)) mod step = 0}"
      using 1(1) True 1(2) by simp
    also have "\<dots> = {j. i \<le> j \<and> j < n \<and> (j - i) mod step = 0}"
    proof -
      have m: "\<And>j. (j - (i + step)) mod step = (j - i) mod step"
        by (metis diff_diff_eq minus_mod_self2)
      have far: "\<And>j. i \<le> j \<Longrightarrow> j \<noteq> i \<Longrightarrow> (j - i) mod step = 0 \<Longrightarrow> i + step \<le> j"
      proof -
        fix j assume a: "i \<le> j" "j \<noteq> i" "(j - i) mod step = 0"
        then have "step dvd (j - i)" and "0 < j - i" by auto
        then have "step \<le> j - i" by (rule zdvd_imp_le)
        then show "i + step \<le> j" by simp
      qed
      show ?thesis using True 1(2) far by (auto simp: m)
    qed
    finally show ?thesis .
  next
    case False
    then show ?thesis by (subst thread_loop.simps) auto
  qed
qed


lemma thread_loop_cover:
  assumes "0 < bdim" "0 \<le> j" "j < n"
  shows "j \<in> set (concat (map (\<lambda>tid. thread_loop tid n bdim) [0..bdim - 1]))"
proof -
  have "j mod bdim \<in> set [0..bdim - 1]" using assms by simp
  moreover have "j \<in> set (thread_loop (j mod bdim) n bdim)"
    using assms by (simp add: thread_loop_set) (smt (verit) mod_less_eq_dividend minus_mod_eq_mult_div mod_mult_self1_is_0 Euclidean_Rings.pos_mod_bound zmod_le_nonneg_dividend)
  ultimately show ?thesis by auto
qed

lemma thread_loop_range:
  assumes "0 < bdim" "j \<in> set (concat (map (\<lambda>tid. thread_loop tid n bdim) [0..bdim - 1]))"
  shows "0 \<le> j \<and> j < n"
  using assms by (auto simp: thread_loop_set)

subsection \<open>swap_blocks\<close>

lemma run_all_map: "run_all f (map h xs) s = run_all (\<lambda>x. f (h x)) xs s"
  by (induction xs arbitrary: s) (auto split: option.splits)

lemma swap_blocks_loop_nonzero:
  "bsz \<noteq> 0 \<Longrightarrow>
   swap_blocks_loop sp dp bsz k ps q =
     (None, q @ map (\<lambda>(s, d). cudaMemcpyAsync dp (d * bsz) sp (s * bsz) bsz k) ps)"
  by (induction ps arbitrary: q) (auto simp: Let_def)

lemma swap_blocks_loop_zero:
  "swap_blocks_loop sp dp 0 k ps q = (if ps = [] then None else Some DivisionByZero, q)"
  by (cases ps) auto

lemma swap_blocks_loop_error:
  "swap_blocks_loop sp dp bsz k ps q = (Some e, q') \<Longrightarrow> q' = q"
  by (cases "bsz = 0") (auto simp: swap_blocks_loop_zero swap_blocks_loop_nonzero split: if_splits)

lemma splice_length:
  "a + c \<le> length L \<Longrightarrow> b + c \<le> length S \<Longrightarrow>
   length (take a L @ take c (drop b S) @ drop (a + c) L) = length L"
  by simp

lemma splice_nth:
  assumes "a + c \<le> length L" "b + c \<le> length S" "k < length L"
  shows "(take a L @ take c (drop b S) @ drop (a + c) L) ! k
           = (if a \<le> k \<and> k < a + c then S ! (b + (k - a)) else L ! k)"
proof -
  consider "k < a" | "a \<le> k" "k < a + c" | "a + c \<le> k" by linarith
  then show ?thesis
  proof cases
    case 1
    then show ?thesis using assms by (simp add: nth_append)
  next
    case 2
    then have "k - a < c" by linarith
    then show ?thesis using 2 assms by (simp add: nth_append)
  next
    case 3
    then have "\<not> k - a < c" "a + c + (k - a - c) = k" by linarith+
    then show ?thesis using 3 assms by (simp add: nth_append)
  qed
qed


lemma cudaMemcpyAsync_Some:
  assumes "cudaMemcpyAsync dst doff src soff n k st = Some st'" and "src \<noteq> dst"
  shows "load st' dst j = (if doff \<le> j \<and> j < doff + n then load st src (soff + (j - doff)) else load st dst j)"
    and "\<And>p. p \<noteq> dst \<Longrightarrow> st' p = st p"
    and "length (st' dst) = length (st dst)"
proof -
  define a b c where "a = nat doff" and "b = nat soff" and "c = nat n"
  from assms(1) have rng: "0 \<le> n" "0 \<le> soff" "soff + n \<le> int (length (st src))"
      "0 \<le> doff" "doff + n \<le> int (length (st dst))"
    and st': "st' = st(dst := take (nat doff) (st dst) @ take (nat n) (drop (nat soff) (st src))
                           @ drop (nat (doff + n)) (st dst))"
    by (auto simp: cudaMemcpyAsync_def split: if_splits)
  have nat_rng: "a + c \<le> length (st dst)" "b + c \<le> length (st src)"
    using rng by (auto simp: a_def b_def c_def)
  have nat_sum: "nat (doff + n) = a + c"
    using rng by (simp add: a_def c_def nat_add_distrib)
  have new: "st' dst = take a (st dst) @ take c (drop b (st src)) @ drop (a + c) (st dst)"
    by (simp add: st' nat_sum a_def b_def c_def)
  show len: "length (st' dst) = length (st dst)"
    unfolding new by (rule splice_length[OF nat_rng])
  show "\<And>p. p \<noteq> dst \<Longrightarrow> st' p = st p" by (simp add: st')
  show "load st' dst j = (if doff \<le> j \<and> j < doff + n then load st src (soff + (j - doff)) else load st dst j)"
  proof (cases "0 \<le> j \<and> j < int (length (st dst))")
    case False
    then show ?thesis using len rng by (auto simp: load_def)
  next
    case True
    then have k: "nat j < length (st dst)" by linarith
    have nth: "st' dst ! nat j = (if a \<le> nat j \<and> nat j < a + c then st src ! (b + (nat j - a)) else st dst ! nat j)"
      unfolding new by (rule splice_nth[OF nat_rng k])
    have in_iff: "(a \<le> nat j \<and> nat j < a + c) = (doff \<le> j \<and> j < doff + n)"
      using True rng by (auto simp: a_def c_def)
    show ?thesis
    proof (cases "doff \<le> j \<and> j < doff + n")
      case in_blk: True
      have idx: "b + (nat j - a) = nat (soff + (j - doff))"
        using in_blk rng by (simp add: a_def b_def) linarith
      have "0 \<le> soff + (j - doff)" "soff + (j - doff) < int (length (st src))"
        using in_blk rng by linarith+
      then show ?thesis using True in_blk nth in_iff idx len by (simp add: load_def)
    next
      case False
      then show ?thesis using True nth in_iff len by (auto simp: load_def)
    qed
  qed
qed

lemma block_disjoint:
  fixes d d' b i :: int
  assumes "d \<noteq> d'" "0 \<le> i" "i < b"
  shows "\<not> (d * b \<le> d' * b + i \<and> d' * b + i < d * b + b)"
proof (cases "d' < d")
  case True
  then have "(d' + 1) * b \<le> d * b" using assms by (intro mult_right_mono) auto
  then show ?thesis using assms by (simp add: algebra_simps)
next
  case False
  then have "(d + 1) * b \<le> d' * b" using assms by (intro mult_right_mono) auto
  then show ?thesis using assms by (simp add: algebra_simps)
qed

lemma cudaMemcpyAsync_defined:
  assumes "0 \<le> n" "0 \<le> soff" "soff + n \<le> int (length (st src))"
      "0 \<le> doff" "doff + n \<le> int (length (st dst))"
  shows "\<exists>st'. cudaMemcpyAsync dst doff src soff n k st = Some st'"
  using assms by (simp add: cudaMemcpyAsync_def)

lemma distinct_map_eq:
  "distinct (map f xs) \<Longrightarrow> x \<in> set xs \<Longrightarrow> y \<in> set xs \<Longrightarrow> f x = f y \<Longrightarrow> x = y"
  by (meson distinct_map inj_onD)

lemma swap_blocks_sync:
  fixes st :: "'c store"
  assumes bsz: "0 < bsz"
    and valid: "valid_block_mapping ps bsz (length (st sp)) (length (st dp))"
    and ne: "sp \<noteq> dp"
  shows "\<exists>st'. run_all (\<lambda>(s, d). cudaMemcpyAsync dp (d * bsz) sp (s * bsz) bsz k) ps st = Some st'
          \<and> (\<forall>(s, d) \<in> set ps. \<forall>i. 0 \<le> i \<and> i < bsz \<longrightarrow>
                 load st' dp (d * bsz + i) = load st sp (s * bsz + i))
          \<and> (\<forall>p. p \<noteq> dp \<longrightarrow> st' p = st p)
          \<and> length (st' dp) = length (st dp)
          \<and> (\<forall>j. (\<forall>(s, d) \<in> set ps. \<not> (d * bsz \<le> j \<and> j < (d + 1) * bsz)) \<longrightarrow>
                 load st' dp j = load st dp j)"
proof -
  define I where "I = (\<lambda>s'::'c store. (\<forall>p. p \<noteq> dp \<longrightarrow> s' p = st p) \<and> length (s' dp) = length (st dp)
      \<and> (\<forall>j. (\<forall>(s, d) \<in> set ps. \<not> (d * bsz \<le> j \<and> j < (d + 1) * bsz)) \<longrightarrow> load s' dp j = load st dp j))"
  define Q where "Q = (\<lambda>(y::int \<times> int) (s'::'c store). y \<in> set ps \<longrightarrow>
      (\<forall>i. 0 \<le> i \<and> i < bsz \<longrightarrow> load s' dp (snd y * bsz + i) = load st sp (fst y * bsz + i)))"
  define F where "F = (\<lambda>(s, d). cudaMemcpyAsync dp (d * bsz) sp (s * bsz) bsz k :: 'c work)"
  have dist: "distinct (map snd ps)"
    and rng: "\<And>s d. (s, d) \<in> set ps \<Longrightarrow> 0 \<le> s \<and> (s + 1) * bsz \<le> int (length (st sp))
                              \<and> 0 \<le> d \<and> (d + 1) * bsz \<le> int (length (st dp))"
    using valid by (auto simp: valid_block_mapping_def)
  have step: "\<exists>s'. F x s = Some s' \<and> I s' \<and> Q (id x) s' \<and> (\<forall>y. y \<noteq> id x \<longrightarrow> Q y s \<longrightarrow> Q y s')"
    if x: "x \<in> set ps" and Is: "I s" for x s
  proof -
    obtain a d where xd: "x = (a, d)" by (cases x)
    have r: "0 \<le> a" "(a + 1) * bsz \<le> int (length (st sp))" "0 \<le> d" "(d + 1) * bsz \<le> int (length (st dp))"
      using rng x xd by auto
    have ssp: "s sp = st sp" and slen: "length (s dp) = length (st dp)"
      using Is ne by (auto simp: I_def)
    have "\<exists>s'. cudaMemcpyAsync dp (d * bsz) sp (a * bsz) bsz k s = Some s'"
      using r bsz ssp slen by (intro cudaMemcpyAsync_defined) (auto simp: algebra_simps)
    then obtain s' where s': "cudaMemcpyAsync dp (d * bsz) sp (a * bsz) bsz k s = Some s'" by blast
    note eff = cudaMemcpyAsync_Some[OF s' ne]
    have ld: "\<And>j. load s' dp j = (if d * bsz \<le> j \<and> j < d * bsz + bsz then load s sp (a * bsz + (j - d * bsz)) else load s dp j)"
      by (rule eff(1))
    have lsp: "\<And>j. load s sp j = load st sp j" using ssp by (simp add: load_def)
    have "I s'"
      unfolding I_def
    proof (intro conjI allI impI)
      fix p assume "p \<noteq> dp" then show "s' p = st p" using eff(2) Is by (simp add: I_def)
    next
      show "length (s' dp) = length (st dp)" using eff(3) slen by simp
    next
      fix j assume out: "\<forall>(s, d) \<in> set ps. \<not> (d * bsz \<le> j \<and> j < (d + 1) * bsz)"
      then have "\<not> (d * bsz \<le> j \<and> j < d * bsz + bsz)" using x xd by (auto simp: algebra_simps)
      then have "load s' dp j = load s dp j" by (auto simp: ld)
      also have "\<dots> = load st dp j" using Is out by (simp add: I_def)
      finally show "load s' dp j = load st dp j" .
    qed
    moreover have "Q (id x) s'"
      by (simp add: Q_def xd ld lsp)
    moreover have "\<forall>y. y \<noteq> id x \<longrightarrow> Q y s \<longrightarrow> Q y s'"
    proof (intro allI impI)
      fix y assume yx: "y \<noteq> id x" and Qy: "Q y s"
      show "Q y s'"
        unfolding Q_def
      proof (intro impI allI)
        fix i assume yin: "y \<in> set ps" and i: "0 \<le> i \<and> i < bsz"
        have "snd y \<noteq> d" using distinct_map_eq[OF dist yin x] yx xd by auto
        then have "\<not> (d * bsz \<le> snd y * bsz + i \<and> snd y * bsz + i < d * bsz + bsz)"
          using block_disjoint[of d "snd y" i bsz] i by auto
        then have "load s' dp (snd y * bsz + i) = load s dp (snd y * bsz + i)" by (auto simp: ld)
        then show "load s' dp (snd y * bsz + i) = load st sp (fst y * bsz + i)"
          using Qy yin i by (simp add: Q_def)
      qed
    qed
    ultimately show ?thesis using s' by (auto simp: F_def xd)
  qed
  have init: "I st" by (simp add: I_def)
  from run_all_establish[of ps I F Q id, OF step init]
  obtain st' where "run_all F ps st = Some st'" "I st'" "\<forall>x\<in>set ps. Q (id x) st'" by blast
  then show ?thesis
    unfolding F_def I_def Q_def by (intro exI[of _ st']) auto
qed

lemma synchronize_map:
  "synchronize (map h xs) st = run_all h xs st"
  by (simp add: synchronize_def run_all_map)

text \<open>
  Claim C2. For a call that passes the residency checks, with non-empty blocks, a valid
  block mapping and a destination buffer other than the source buffer: the call raises
  nothing, and once the enqueued copies have run, every destination block holds the
  \<open>block_size_in_bytes = element_size * numel(src[0])\<close> bytes its source block held
  before the call. Every buffer other than the destination, the source included, is
  unchanged, and so is every destination byte outside the destination blocks.
\<close>

theorem swap_blocks_copies_blocks:
  fixes st :: "'c store"
  assumes kind: "memcpy_type_of (device src) (device dst) = Inr kind"
    and host: "is_cpu (bm_device block_mapping)"
    and numel: "first_numel src = Inr numel"
    and bsz: "bsz = element_size (dtype src) * numel" "0 < bsz"
    and valid: "valid_block_mapping (bm_pairs block_mapping) bsz
                  (length (st (data_ptr src))) (length (st (data_ptr dst)))"
    and ne: "data_ptr src \<noteq> data_ptr dst"
  shows "fst (swap_blocks src dst block_mapping :: error option \<times> 'c work list) = None
       \<and> (\<exists>st'. synchronize (snd (swap_blocks src dst block_mapping)) st = Some st'
            \<and> (\<forall>(s, d) \<in> set (bm_pairs block_mapping). \<forall>i. 0 \<le> i \<and> i < bsz \<longrightarrow>
                  load st' (data_ptr dst) (d * bsz + i) = load st (data_ptr src) (s * bsz + i))
            \<and> (\<forall>p. p \<noteq> data_ptr dst \<longrightarrow> st' p = st p)
            \<and> length (st' (data_ptr dst)) = length (st (data_ptr dst))
            \<and> (\<forall>j. (\<forall>(s, d) \<in> set (bm_pairs block_mapping). \<not> (d * bsz \<le> j \<and> j < (d + 1) * bsz)) \<longrightarrow>
                  load st' (data_ptr dst) j = load st (data_ptr dst) j))"
proof -
  have nz: "element_size (dtype src) * numel \<noteq> 0" using bsz by linarith
  have call: "(swap_blocks src dst block_mapping :: error option \<times> 'c work list) =
      (None, map (\<lambda>(s, d). cudaMemcpyAsync (data_ptr dst) (d * bsz) (data_ptr src) (s * bsz) bsz kind)
               (bm_pairs block_mapping))"
    using kind host numel bsz(1) nz by (simp add: swap_blocks_def swap_blocks_loop_nonzero)
  show ?thesis
    unfolding call fst_conv snd_conv synchronize_map
    using swap_blocks_sync[OF bsz(2) valid ne, of kind] by simp
qed

text \<open>
  The theorem at a transfer of two blocks of two bytes from a device buffer to a host
  buffer, with the mapping \<open>[(0, 1), (1, 0)]\<close>.
\<close>

theorem swap_blocks_copies_blocks_witness:
  "valid_block_mapping [(0, 1), (1, 0)] 2 4 4
   \<and> (\<exists>st'. synchronize (snd (swap_blocks
          \<lparr>data_ptr = 1, device = Device CUDA 0, dtype = kByte, sizes = [2, 2], strides = [2, 1]\<rparr>
          \<lparr>data_ptr = 2, device = Device CPU 0, dtype = kByte, sizes = [2, 2], strides = [2, 1]\<rparr>
          \<lparr>bm_device = Device CPU 0, bm_pairs = [(0, 1), (1, 0)]\<rparr>))
        (\<lambda>p. if p = 1 then [10, 11, 12, 13] else [0, 0, 0, 0 :: nat]) = Some st'
      \<and> load st' 2 0 = Some 12 \<and> load st' 2 1 = Some 13
      \<and> load st' 2 2 = Some 10 \<and> load st' 2 3 = Some 11
      \<and> st' 1 = [10, 11, 12, 13])"
proof -
  let ?src = "\<lparr>data_ptr = 1, device = Device CUDA 0, dtype = kByte, sizes = [2, 2], strides = [2, 1]\<rparr>"
  let ?dst = "\<lparr>data_ptr = 2, device = Device CPU 0, dtype = kByte, sizes = [2, 2], strides = [2, 1]\<rparr>"
  let ?bm = "\<lparr>bm_device = Device CPU 0, bm_pairs = [(0, 1), (1, 0)]\<rparr>"
  let ?st = "\<lambda>p::nat. if p = 1 then [10, 11, 12, 13] else [0, 0, 0, 0 :: nat]"
  have v: "valid_block_mapping [(0, 1), (1, 0)] 2 4 4"
    by (simp add: valid_block_mapping_def)
  have h1: "memcpy_type_of (device ?src) (device ?dst) = Inr cudaMemcpyDeviceToHost"
    by (simp add: memcpy_type_of_def is_cuda_def is_cpu_def)
  have h2: "is_cpu (bm_device ?bm)" by (simp add: is_cpu_def)
  have h3: "first_numel ?src = Inr 2" by (simp add: first_numel_def)
  have h4: "(2::int) = element_size (dtype ?src) * 2" "0 < (2::int)" by simp_all
  have h5: "valid_block_mapping (bm_pairs ?bm) 2 (length (?st (data_ptr ?src))) (length (?st (data_ptr ?dst)))"
    by (simp add: valid_block_mapping_def)
  have h6: "data_ptr ?src \<noteq> data_ptr ?dst" by simp
  from swap_blocks_copies_blocks[OF h1 h2 h3 h4 h5 h6]
  obtain st' where sync: "synchronize (snd (swap_blocks ?src ?dst ?bm)) ?st = Some st'"
    and copy: "\<forall>(s, d) \<in> set (bm_pairs ?bm). \<forall>i. 0 \<le> i \<and> i < 2 \<longrightarrow>
                  load st' (data_ptr ?dst) (d * 2 + i) = load ?st (data_ptr ?src) (s * 2 + i)"
    and frame: "\<forall>p. p \<noteq> data_ptr ?dst \<longrightarrow> st' p = ?st p"
    by blast
  from copy have b10: "\<forall>i. 0 \<le> i \<and> i < 2 \<longrightarrow> load st' 2 i = load ?st 1 (2 + i)"
    and b01: "\<forall>i. 0 \<le> i \<and> i < 2 \<longrightarrow> load st' 2 (2 + i) = load ?st 1 i"
    by simp_all
  have c0: "load st' 2 0 = Some 12" using b10[rule_format, of 0] by (simp add: load_def)
  have c1: "load st' 2 1 = Some 13" using b10[rule_format, of 1] by (simp add: load_def)
  have c2: "load st' 2 2 = Some 10" using b01[rule_format, of 0] by (simp add: load_def)
  have c3: "load st' 2 3 = Some 11" using b01[rule_format, of 1] by (simp add: load_def)
  have c4: "st' 1 = [10, 11, 12, 13]" using frame[rule_format, of 1] by simp
  show ?thesis using v sync c0 c1 c2 c3 c4 by blast
qed

text \<open>
  Claim C6. \<open>swap_blocks\<close> rejects two device buffers with different device indices,
  rejects two host buffers, and rejects a block mapping that is not host-resident, each
  with a \<open>PreconditionViolation\<close> and an empty queue. A same-device pair and a
  device/host pair in either direction, with a host-resident mapping and non-empty
  blocks, is accepted: nothing is raised and one copy per pair is enqueued. Whatever the
  call raises, it has enqueued nothing.
\<close>

theorem swap_blocks_residency:
  "(is_cuda (device src) \<and> is_cuda (device dst) \<and> index (device src) \<noteq> index (device dst)
      \<longrightarrow> swap_blocks src dst block_mapping = (Some PreconditionViolation, []))
   \<and> (is_cpu (device src) \<and> is_cpu (device dst)
      \<longrightarrow> swap_blocks src dst block_mapping = (Some PreconditionViolation, []))
   \<and> (\<not> is_cpu (bm_device block_mapping)
      \<longrightarrow> swap_blocks src dst block_mapping = (Some PreconditionViolation, []))
   \<and> (((is_cuda (device src) \<and> is_cuda (device dst) \<and> index (device src) = index (device dst))
        \<or> (is_cuda (device src) \<and> is_cpu (device dst))
        \<or> (is_cpu (device src) \<and> is_cuda (device dst)))
       \<and> is_cpu (bm_device block_mapping)
       \<and> first_numel src = Inr numel \<and> element_size (dtype src) * numel \<noteq> 0
      \<longrightarrow> (\<exists>q. (swap_blocks src dst block_mapping :: error option \<times> 'c work list) = (None, q)
                \<and> length q = length (bm_pairs block_mapping)))
   \<and> (\<forall>e q. swap_blocks src dst block_mapping = (Some e, q) \<longrightarrow> q = [])"
proof (intro conjI impI allI)
  assume "is_cuda (device src) \<and> is_cuda (device dst) \<and> index (device src) \<noteq> index (device dst)"
  then show "swap_blocks src dst block_mapping = (Some PreconditionViolation, [])"
    by (simp add: swap_blocks_def memcpy_type_of_def)
next
  assume "is_cpu (device src) \<and> is_cpu (device dst)"
  then show "swap_blocks src dst block_mapping = (Some PreconditionViolation, [])"
    by (simp add: swap_blocks_def memcpy_type_of_def is_cuda_def is_cpu_def)
next
  assume "\<not> is_cpu (bm_device block_mapping)"
  then show "swap_blocks src dst block_mapping = (Some PreconditionViolation, [])"
    by (auto simp: swap_blocks_def memcpy_type_of_def split: sum.splits)
next
  assume a: "((is_cuda (device src) \<and> is_cuda (device dst) \<and> index (device src) = index (device dst))
        \<or> (is_cuda (device src) \<and> is_cpu (device dst))
        \<or> (is_cpu (device src) \<and> is_cuda (device dst)))
       \<and> is_cpu (bm_device block_mapping)
       \<and> first_numel src = Inr numel \<and> element_size (dtype src) * numel \<noteq> 0"
  then obtain kind where "memcpy_type_of (device src) (device dst) = Inr kind"
    by (auto simp: memcpy_type_of_def is_cuda_def is_cpu_def)
  with a have "(swap_blocks src dst block_mapping :: error option \<times> 'c work list) =
      (None, map (\<lambda>(s, d). cudaMemcpyAsync (data_ptr dst) (d * (element_size (dtype src) * numel))
                     (data_ptr src) (s * (element_size (dtype src) * numel))
                     (element_size (dtype src) * numel) kind) (bm_pairs block_mapping))"
    by (simp add: swap_blocks_def swap_blocks_loop_nonzero)
  then show "\<exists>q. (swap_blocks src dst block_mapping :: error option \<times> 'c work list) = (None, q)
                \<and> length q = length (bm_pairs block_mapping)"
    by simp
next
  fix e q
  assume "swap_blocks src dst block_mapping = (Some e, q)"
  then show "q = []"
    by (auto simp: swap_blocks_def split: sum.splits if_splits dest: swap_blocks_loop_error)
qed

text \<open>
  The theorem at four calls: device 0 to device 1, host to host, device to host with a
  device-resident mapping, and device to host with a host-resident mapping.
\<close>

theorem swap_blocks_residency_witness:
  "(swap_blocks
      \<lparr>data_ptr = 1, device = Device CUDA 0, dtype = kHalf, sizes = [2, 8], strides = [8, 1]\<rparr>
      \<lparr>data_ptr = 2, device = Device CUDA 1, dtype = kHalf, sizes = [2, 8], strides = [8, 1]\<rparr>
      \<lparr>bm_device = Device CPU 0, bm_pairs = [(0, 0), (1, 1)]\<rparr>
      :: error option \<times> nat work list) = (Some PreconditionViolation, [])
   \<and> (swap_blocks
      \<lparr>data_ptr = 1, device = Device CPU 0, dtype = kHalf, sizes = [2, 8], strides = [8, 1]\<rparr>
      \<lparr>data_ptr = 2, device = Device CPU 0, dtype = kHalf, sizes = [2, 8], strides = [8, 1]\<rparr>
      \<lparr>bm_device = Device CPU 0, bm_pairs = [(0, 0), (1, 1)]\<rparr>
      :: error option \<times> nat work list) = (Some PreconditionViolation, [])
   \<and> (swap_blocks
      \<lparr>data_ptr = 1, device = Device CUDA 0, dtype = kHalf, sizes = [2, 8], strides = [8, 1]\<rparr>
      \<lparr>data_ptr = 2, device = Device CPU 0, dtype = kHalf, sizes = [2, 8], strides = [8, 1]\<rparr>
      \<lparr>bm_device = Device CUDA 0, bm_pairs = [(0, 0), (1, 1)]\<rparr>
      :: error option \<times> nat work list) = (Some PreconditionViolation, [])
   \<and> (\<exists>q. (swap_blocks
      \<lparr>data_ptr = 1, device = Device CUDA 0, dtype = kHalf, sizes = [2, 8], strides = [8, 1]\<rparr>
      \<lparr>data_ptr = 2, device = Device CPU 0, dtype = kHalf, sizes = [2, 8], strides = [8, 1]\<rparr>
      \<lparr>bm_device = Device CPU 0, bm_pairs = [(0, 0), (1, 1)]\<rparr>
      :: error option \<times> nat work list) = (None, q) \<and> length q = 2)"
proof -
  let ?dev0 = "\<lparr>data_ptr = 1, device = Device CUDA 0, dtype = kHalf, sizes = [2, 8], strides = [8, 1]\<rparr>"
  let ?dev1 = "\<lparr>data_ptr = 2, device = Device CUDA 1, dtype = kHalf, sizes = [2, 8], strides = [8, 1]\<rparr>"
  let ?host1 = "\<lparr>data_ptr = 1, device = Device CPU 0, dtype = kHalf, sizes = [2, 8], strides = [8, 1]\<rparr>"
  let ?host2 = "\<lparr>data_ptr = 2, device = Device CPU 0, dtype = kHalf, sizes = [2, 8], strides = [8, 1]\<rparr>"
  let ?bm = "\<lparr>bm_device = Device CPU 0, bm_pairs = [(0, 0), (1, 1)]\<rparr>"
  let ?bm_dev = "\<lparr>bm_device = Device CUDA 0, bm_pairs = [(0, 0), (1, 1)]\<rparr>"
  have a: "is_cuda (device ?dev0) \<and> is_cuda (device ?dev1) \<and> index (device ?dev0) \<noteq> index (device ?dev1)"
    by (simp add: is_cuda_def)
  have b: "is_cpu (device ?host1) \<and> is_cpu (device ?host2)"
    by (simp add: is_cpu_def)
  have c: "\<not> is_cpu (bm_device ?bm_dev)"
    by (simp add: is_cpu_def)
  have d: "((is_cuda (device ?dev0) \<and> is_cuda (device ?host2) \<and> index (device ?dev0) = index (device ?host2))
        \<or> (is_cuda (device ?dev0) \<and> is_cpu (device ?host2))
        \<or> (is_cpu (device ?dev0) \<and> is_cuda (device ?host2)))
       \<and> is_cpu (bm_device ?bm)
       \<and> first_numel ?dev0 = Inr 8 \<and> element_size (dtype ?dev0) * 8 \<noteq> 0"
    by (simp add: is_cuda_def is_cpu_def first_numel_def)
  have 1: "(swap_blocks ?dev0 ?dev1 ?bm :: error option \<times> nat work list) = (Some PreconditionViolation, [])"
    using swap_blocks_residency[of ?dev0 ?dev1 ?bm] a by blast
  have 2: "(swap_blocks ?host1 ?host2 ?bm :: error option \<times> nat work list) = (Some PreconditionViolation, [])"
    using swap_blocks_residency[of ?host1 ?host2 ?bm] b by blast
  have 3: "(swap_blocks ?dev0 ?host2 ?bm_dev :: error option \<times> nat work list) = (Some PreconditionViolation, [])"
    using swap_blocks_residency[of ?dev0 ?host2 ?bm_dev] c by blast
  have "\<exists>q. (swap_blocks ?dev0 ?host2 ?bm :: error option \<times> nat work list) = (None, q)
          \<and> length q = length (bm_pairs ?bm)"
    using swap_blocks_residency[where src = ?dev0 and dst = ?host2 and block_mapping = ?bm
        and numel = 8 and 'c = nat] d
    by blast
  then have 4: "\<exists>q. (swap_blocks ?dev0 ?host2 ?bm :: error option \<times> nat work list) = (None, q) \<and> length q = 2"
    by (simp add: numeral_2_eq_2)
  show ?thesis using 1 2 3 4 by blast
qed

subsection \<open>Host-side checks\<close>

lemma bnd_Inr_iff: "(bnd m f = Inr r) = (\<exists>a. m = Inr a \<and> f a = Inr r)"
  by (cases m) (auto simp: bnd_def)

lemma bnd_Inl_iff: "(bnd m f = Inl e) = (m = Inl e \<or> (\<exists>a. m = Inr a \<and> f a = Inl e))"
  by (cases m) (auto simp: bnd_def)

lemma bnd_simps: "bnd (Inl e) f = Inl e" "bnd (Inr a) f = f a"
  by (simp_all add: bnd_def)

lemma TORCH_CHECK_simps:
  "(TORCH_CHECK c e = Inr u) = c" "(TORCH_CHECK c e = Inl e') = (\<not> c \<and> e' = e)"
  by (auto simp: TORCH_CHECK_def)

lemma to_int_fits: "- (2 ^ 31) \<le> v \<Longrightarrow> v < 2 ^ 31 \<Longrightarrow> to_int v = v"
  by (simp add: to_int_def)

lemma to_int_0: "to_int 0 = 0"
  by (simp add: to_int_def)

lemma as_int_simps: "as_int (Inl e) = Inl e" "as_int (Inr v) = Inr (to_int v)"
  by (simp_all add: as_int_def bnd_def)

lemma as_int_Inr_iff: "(as_int m = Inr n) = (\<exists>v. m = Inr v \<and> n = to_int v)"
  by (cases m) (auto simp: as_int_simps)


text \<open>
  Claim C10. A call of \<open>convert_fp8\<close> whose source or destination buffer is not
  device-resident, or whose buffers sit on devices with different indices, raises a
  \<open>PreconditionViolation\<close> and enqueues nothing.
\<close>

theorem convert_fp8_residency:
  assumes "\<not> is_cuda (device src_cache) \<or> \<not> is_cuda (device dst_cache)
           \<or> index (device src_cache) \<noteq> index (device dst_cache)"
  shows "convert_fp8 scaled_convert dst_cache src_cache kv_scale kv_cache_dtype
           = (Some PreconditionViolation, [])"
proof -
  consider "\<not> is_cuda (device src_cache)"
    | "is_cuda (device src_cache)" "\<not> is_cuda (device dst_cache)"
    | "is_cuda (device src_cache)" "is_cuda (device dst_cache)"
      "index (device src_cache) \<noteq> index (device dst_cache)"
    using assms by blast
  then show ?thesis
    by cases (simp_all add: convert_fp8_def TORCH_CHECK_def bnd_simps)
qed

text \<open>The theorem at a host-resident source, and at buffers on devices 0 and 1.\<close>

theorem convert_fp8_residency_witness:
  "(convert_fp8 (\<lambda>Tout Tin kv_dt v s. v)
      \<lparr>data_ptr = 2, device = Device CUDA 0, dtype = kByte, sizes = [2, 4], strides = [4, 1]\<rparr>
      \<lparr>data_ptr = 1, device = Device CPU 0, dtype = kFloat, sizes = [2, 4], strides = [4, 1]\<rparr>
      (1 :: int) ''fp8'' :: error option \<times> nat work list) = (Some PreconditionViolation, [])
   \<and> (convert_fp8 (\<lambda>Tout Tin kv_dt v s. v)
      \<lparr>data_ptr = 2, device = Device CUDA 1, dtype = kByte, sizes = [2, 4], strides = [4, 1]\<rparr>
      \<lparr>data_ptr = 1, device = Device CUDA 0, dtype = kFloat, sizes = [2, 4], strides = [4, 1]\<rparr>
      (1 :: int) ''fp8'' :: error option \<times> nat work list) = (Some PreconditionViolation, [])"
proof -
  let ?host = "\<lparr>data_ptr = 1, device = Device CPU 0, dtype = kFloat, sizes = [2, 4], strides = [4, 1]\<rparr>"
  let ?dev0 = "\<lparr>data_ptr = 1, device = Device CUDA 0, dtype = kFloat, sizes = [2, 4], strides = [4, 1]\<rparr>"
  let ?dst0 = "\<lparr>data_ptr = 2, device = Device CUDA 0, dtype = kByte, sizes = [2, 4], strides = [4, 1]\<rparr>"
  let ?dst1 = "\<lparr>data_ptr = 2, device = Device CUDA 1, dtype = kByte, sizes = [2, 4], strides = [4, 1]\<rparr>"
  have a: "\<not> is_cuda (device ?host) \<or> \<not> is_cuda (device ?dst0)
           \<or> index (device ?host) \<noteq> index (device ?dst0)"
    by (simp add: is_cuda_def)
  have b: "\<not> is_cuda (device ?dev0) \<or> \<not> is_cuda (device ?dst1)
           \<or> index (device ?dev0) \<noteq> index (device ?dst1)"
    by simp
  show ?thesis
    by (rule conjI[OF convert_fp8_residency[OF a] convert_fp8_residency[OF b]])
qed

text \<open>
  Claim C1 says that every dtype pairing outside the supported set fails with
  \<open>UnsupportedOperation\<close>. The dtype chains of \<open>convert_fp8\<close> have no final
  \<open>else\<close> and never compare the two dtypes with each other. With the tag \<open>auto\<close>,
  a byte source and a byte destination: the call returns normally and launches nothing.
  With a 32-bit float source and a 32-bit float destination: the call returns normally
  and launches the 8-bit-from-float kernel on the float destination.
\<close>

theorem convert_fp8_unchecked_pair:
  "(convert_fp8 (\<lambda>Tout Tin kv_dt v s. v)
      \<lparr>data_ptr = 2, device = Device CUDA 0, dtype = kByte, sizes = [2, 4], strides = [4, 1]\<rparr>
      \<lparr>data_ptr = 1, device = Device CUDA 0, dtype = kByte, sizes = [2, 4], strides = [4, 1]\<rparr>
      (1 :: int) ''auto'' :: error option \<times> nat work list) = (None, [])
   \<and> (convert_fp8 (\<lambda>Tout Tin kv_dt v s. v)
      \<lparr>data_ptr = 2, device = Device CUDA 0, dtype = kFloat, sizes = [2, 4], strides = [4, 1]\<rparr>
      \<lparr>data_ptr = 1, device = Device CUDA 0, dtype = kFloat, sizes = [2, 4], strides = [4, 1]\<rparr>
      (1 :: int) ''auto'' :: error option \<times> nat work list)
     = (None, [launch (convert_fp8_kernel (\<lambda>Tout Tin kv_dt v s. v) c_uint8_t c_float kAuto 1 2 (1 :: int) 4)
                 [0..1] 4])"
  by (simp add: convert_fp8_def TORCH_CHECK_def bnd_simps is_cuda_def size_of_def stride_of_def
      convert_fp8_types_def)

text \<open>
  The only \<open>UnsupportedOperation\<close> of \<open>convert_fp8\<close>: a tag that is none of
  \<open>auto\<close>, \<open>fp8\<close> and \<open>fp8_e4m3\<close>, on a call that passed the residency
  checks.
\<close>

lemma convert_fp8_unknown_tag:
  assumes "is_cuda (device src_cache)" "is_cuda (device dst_cache)"
    "index (device src_cache) = index (device dst_cache)"
    "kv_cache_dtype \<noteq> ''auto''" "kv_cache_dtype \<noteq> ''fp8''" "kv_cache_dtype \<noteq> ''fp8_e4m3''"
    "sizes src_cache \<noteq> []" "strides src_cache \<noteq> []"
  shows "convert_fp8 scaled_convert dst_cache src_cache kv_scale kv_cache_dtype
           = (Some UnsupportedOperation, [])"
  using assms by (simp add: convert_fp8_def TORCH_CHECK_def bnd_simps size_of_def stride_of_def)


text \<open>
  A value tensor or a cache of another dtype than the key stops the call: the typed
  \<open>data_ptr\<close> raises and nothing is launched.
\<close>

lemma reshape_and_cache_flash_dtype_mismatch:
  assumes "dtype value \<noteq> dtype key \<or> dtype k_cache \<noteq> dtype key \<or> dtype v_cache \<noteq> dtype key"
  shows "\<exists>e. reshape_and_cache_flash key value k_cache v_cache slot_mapping kv_cache_dtype
               = (Some e, [])"
  using assms unfolding reshape_and_cache_flash_def
  by (auto simp: bnd_def TORCH_CHECK_def split: sum.splits)

lemma run_all_skip:
  "(\<And>x. x \<in> set xs \<Longrightarrow> f x s = Some s) \<Longrightarrow> run_all f xs s = Some s"
  by (induction xs) auto

lemma launch_skip:
  assumes "\<And>b t. b \<in> set grid \<Longrightarrow> body b t bdim st = Some st"
  shows "launch body grid bdim st = Some st"
  unfolding launch_def by (intro run_all_skip) (simp add: assms)

lemma reshape_and_cache_kernel_skip:
  "0 \<le> t \<Longrightarrow> t < int (length slot_mapping) \<Longrightarrow> slot_mapping ! nat t < 0 \<Longrightarrow>
   reshape_and_cache_kernel sc scalar_t cache_t kv_dt k v kc vc slot_mapping
     ks vs nh hs bs x scale t tid bdim st = Some st"
  by (simp add: reshape_and_cache_kernel_def)

lemma reshape_and_cache_flash_kernel_skip:
  "0 \<le> t \<Longrightarrow> t < int (length slot_mapping) \<Longrightarrow> slot_mapping ! nat t < 0 \<Longrightarrow>
   reshape_and_cache_flash_kernel k v kc vc slot_mapping bstride ks vs nh hs bs t tid bdim st
     = Some st"
  by (simp add: reshape_and_cache_flash_kernel_def)

lemma reshape_and_cache_cases:
  "(\<exists>e. reshape_and_cache DISPATCH sc key value key_cache value_cache slot_mapping tag scale
          = (Some e, []))
   \<or> (\<exists>KV_T CACHE_T KV_DTYPE nt nh hs bs x ks vs.
         nt \<le> int (length slot_mapping)
         \<and> reshape_and_cache DISPATCH sc key value key_cache value_cache slot_mapping tag scale
             = (None, [launch (reshape_and_cache_kernel sc KV_T CACHE_T KV_DTYPE
                                 (data_ptr key) (data_ptr value)
                                 (data_ptr key_cache) (data_ptr value_cache) slot_mapping
                                 ks vs nh hs bs x scale)
                         [0..nt - 1] (min (nh * hs) 512)]))"
  unfolding reshape_and_cache_def
  by (simp add: bnd_Inr_iff TORCH_CHECK_simps split: sum.splits prod.splits) blast

lemma reshape_and_cache_flash_Some:
  "reshape_and_cache_flash key val k_cache v_cache slot_mapping tag = (Some e, q) \<Longrightarrow> q = []"
  unfolding reshape_and_cache_flash_def by (simp split: sum.splits)

lemma reshape_and_cache_flash_None:
  "reshape_and_cache_flash key val k_cache v_cache slot_mapping tag = (None, q) \<Longrightarrow>
   \<exists>nt nh hs bs ks vs bstride.
         nt \<le> int (length slot_mapping)
         \<and> q = [launch (reshape_and_cache_flash_kernel
                                 (data_ptr key) (data_ptr val)
                                 (data_ptr k_cache) (data_ptr v_cache) slot_mapping
                                 bstride ks vs nh hs bs)
                         [0..nt - 1] (min (nh * hs) 512)]"
  unfolding reshape_and_cache_flash_def
  by (simp add: bnd_Inr_iff TORCH_CHECK_simps split: sum.splits) blast

lemma reshape_and_cache_flash_cases:
  "(\<exists>e. (reshape_and_cache_flash key val k_cache v_cache slot_mapping tag
           :: error option \<times> 'c work list) = (Some e, []))
   \<or> (\<exists>nt nh hs bs ks vs bstride.
         nt \<le> int (length slot_mapping)
         \<and> (reshape_and_cache_flash key val k_cache v_cache slot_mapping tag
              :: error option \<times> 'c work list)
             = (None, [launch (reshape_and_cache_flash_kernel
                                 (data_ptr key) (data_ptr val)
                                 (data_ptr k_cache) (data_ptr v_cache) slot_mapping
                                 bstride ks vs nh hs bs)
                         [0..nt - 1] (min (nh * hs) 512)]))"
proof (cases "reshape_and_cache_flash key val k_cache v_cache slot_mapping tag
               :: error option \<times> 'c work list")
  case (Pair eo q)
  show ?thesis
  proof (cases eo)
    case None
    with Pair reshape_and_cache_flash_None[of key val k_cache v_cache slot_mapping tag q]
    show ?thesis by auto
  next
    case (Some e)
    with Pair reshape_and_cache_flash_Some[of key val k_cache v_cache slot_mapping tag e q]
    show ?thesis by auto
  qed
qed

text \<open>
  Claim C5. A kernel block whose token has a negative slot returns at once, in both
  layouts: it leaves memory as it is and does not fault. When every entry of the slot
  mapping is negative, whatever \<open>reshape_and_cache\<close> and \<open>reshape_and_cache_flash\<close>
  enqueue leaves the whole of memory, the key and value caches included, unchanged.
\<close>

theorem negative_slots_are_skipped:
  fixes st :: "'c store"
  shows
  "(\<forall>t tid bdim. 0 \<le> t \<and> t < int (length slot_mapping) \<and> slot_mapping ! nat t < 0 \<longrightarrow>
       reshape_and_cache_kernel sc scalar_t cache_t kv_dt k v kc vc slot_mapping
         ks vs nh hs bs x scale t tid bdim st = Some st
     \<and> reshape_and_cache_flash_kernel k v kc vc slot_mapping bstride ks vs nh hs bs t tid bdim st
         = Some st)
   \<and> ((\<forall>s \<in> set slot_mapping. s < 0) \<longrightarrow>
       synchronize (snd (reshape_and_cache DISPATCH sc key value key_cache value_cache
                           slot_mapping tag scale)) st = Some st
     \<and> synchronize (snd (reshape_and_cache_flash key value k_cache v_cache
                           slot_mapping tag)) st = Some st)"
proof (intro conjI allI impI)
  fix t tid bdim
  assume a: "0 \<le> t \<and> t < int (length slot_mapping) \<and> slot_mapping ! nat t < 0"
  show "reshape_and_cache_kernel sc scalar_t cache_t kv_dt k v kc vc slot_mapping
         ks vs nh hs bs x scale t tid bdim st = Some st"
    using a by (simp add: reshape_and_cache_kernel_skip)
  show "reshape_and_cache_flash_kernel k v kc vc slot_mapping bstride ks vs nh hs bs t tid bdim st
         = Some st"
    using a by (simp add: reshape_and_cache_flash_kernel_skip)
next
  assume neg: "\<forall>s \<in> set slot_mapping. s < 0"
  have skip: "\<And>t. 0 \<le> t \<Longrightarrow> t < int (length slot_mapping) \<Longrightarrow> slot_mapping ! nat t < 0"
    using neg by simp
  show "synchronize (snd (reshape_and_cache DISPATCH sc key value key_cache value_cache
                           slot_mapping tag scale)) st = Some st"
    using reshape_and_cache_cases[of DISPATCH sc key "value" key_cache value_cache slot_mapping tag scale]
  proof (elim disjE exE conjE)
    fix e
    assume "reshape_and_cache DISPATCH sc key value key_cache value_cache slot_mapping tag scale
              = (Some e, [])"
    then show ?thesis by (simp add: synchronize_def)
  next
    fix KV_T CACHE_T KV_DTYPE nt nh' hs' bs' x' ks' vs'
    assume nt: "nt \<le> int (length slot_mapping)"
      and r: "reshape_and_cache DISPATCH sc key value key_cache value_cache slot_mapping tag scale
             = (None, [launch (reshape_and_cache_kernel sc KV_T CACHE_T KV_DTYPE
                                 (data_ptr key) (data_ptr value)
                                 (data_ptr key_cache) (data_ptr value_cache) slot_mapping
                                 ks' vs' nh' hs' bs' x' scale)
                         [0..nt - 1] (min (nh' * hs') 512)])"
    have "launch (reshape_and_cache_kernel sc KV_T CACHE_T KV_DTYPE
                                 (data_ptr key) (data_ptr value)
                                 (data_ptr key_cache) (data_ptr value_cache) slot_mapping
                                 ks' vs' nh' hs' bs' x' scale)
                         [0..nt - 1] (min (nh' * hs') 512) st = Some st"
      using nt by (intro launch_skip reshape_and_cache_kernel_skip skip) auto
    then show ?thesis by (simp add: r synchronize_def)
  qed
  show "synchronize (snd (reshape_and_cache_flash key value k_cache v_cache
                           slot_mapping tag)) st = Some st"
    using reshape_and_cache_flash_cases[where key = key and val = "value" and k_cache = k_cache
        and v_cache = v_cache and slot_mapping = slot_mapping and tag = tag and 'c = 'c]
  proof (elim disjE exE conjE)
    fix e
    assume "(reshape_and_cache_flash key value k_cache v_cache slot_mapping tag
               :: error option \<times> 'c work list) = (Some e, [])"
    then show ?thesis by (simp add: synchronize_def)
  next
    fix nt nh' hs' bs' ks' vs' bstride'
    assume nt: "nt \<le> int (length slot_mapping)"
      and r: "(reshape_and_cache_flash key value k_cache v_cache slot_mapping tag
                :: error option \<times> 'c work list)
             = (None, [launch (reshape_and_cache_flash_kernel
                                 (data_ptr key) (data_ptr value)
                                 (data_ptr k_cache) (data_ptr v_cache) slot_mapping
                                 bstride' ks' vs' nh' hs' bs')
                         [0..nt - 1] (min (nh' * hs') 512)])"
    have "launch (reshape_and_cache_flash_kernel
                                 (data_ptr key) (data_ptr value)
                                 (data_ptr k_cache) (data_ptr v_cache) slot_mapping
                                 bstride' ks' vs' nh' hs' bs')
                         [0..nt - 1] (min (nh' * hs') 512) st = Some st"
      using nt by (intro launch_skip reshape_and_cache_flash_kernel_skip skip) auto
    then show ?thesis by (simp add: r synchronize_def)
  qed
qed

text \<open>
  The theorem at the slot mapping \<open>[-1, -1]\<close> for the two calls, and at token 1 of the
  slot mapping \<open>[5, -1, 20]\<close> for the two kernels.
\<close>

theorem negative_slots_are_skipped_witness:
  "synchronize (snd (reshape_and_cache (\<lambda>d t. Inr (c_float, c_float, kAuto)) (\<lambda>Tout Tin kv_dt v s. v)
        \<lparr>data_ptr = 1, device = Device CUDA 0, dtype = kFloat, sizes = [2, 1, 2], strides = [2, 2, 1]\<rparr>
        \<lparr>data_ptr = 2, device = Device CUDA 0, dtype = kFloat, sizes = [2, 1, 2], strides = [2, 2, 1]\<rparr>
        \<lparr>data_ptr = 3, device = Device CUDA 0, dtype = kFloat, sizes = [1, 1, 1, 2, 2], strides = [4, 4, 4, 2, 1]\<rparr>
        \<lparr>data_ptr = 4, device = Device CUDA 0, dtype = kFloat, sizes = [1, 1, 2, 2], strides = [4, 4, 2, 1]\<rparr>
        [-1, -1] ''auto'' (1 :: int)))
     (\<lambda>p. [7, 8, 9, 10 :: nat]) = Some (\<lambda>p. [7, 8, 9, 10])
   \<and> synchronize (snd (reshape_and_cache_flash
        \<lparr>data_ptr = 1, device = Device CUDA 0, dtype = kFloat, sizes = [2, 1, 2], strides = [2, 2, 1]\<rparr>
        \<lparr>data_ptr = 2, device = Device CUDA 0, dtype = kFloat, sizes = [2, 1, 2], strides = [2, 2, 1]\<rparr>
        \<lparr>data_ptr = 3, device = Device CUDA 0, dtype = kFloat, sizes = [1, 2, 1, 2], strides = [4, 2, 2, 1]\<rparr>
        \<lparr>data_ptr = 4, device = Device CUDA 0, dtype = kFloat, sizes = [1, 2, 1, 2], strides = [4, 2, 2, 1]\<rparr>
        [-1, -1] ''auto''))
     (\<lambda>p. [7, 8, 9, 10 :: nat]) = Some (\<lambda>p. [7, 8, 9, 10])
   \<and> reshape_and_cache_kernel (\<lambda>Tout Tin kv_dt v (s :: int). v) c_float c_float kAuto 1 2 3 4
        [5, -1, 20] 8 8 2 4 16 2 1 1 0 8 (\<lambda>p. [7, 8, 9, 10 :: nat]) = Some (\<lambda>p. [7, 8, 9, 10])
   \<and> reshape_and_cache_flash_kernel 1 2 3 4 [5, -1, 20] 128 8 8 2 4 16 1 0 8
        (\<lambda>p. [7, 8, 9, 10 :: nat]) = Some (\<lambda>p. [7, 8, 9, 10])"
proof -
  let ?st = "\<lambda>p::nat. [7, 8, 9, 10 :: nat]"
  have neg: "\<forall>s \<in> set [-1, -1 :: int]. s < 0" by simp
  have tok: "0 \<le> (1::int) \<and> 1 < int (length [5, -1, 20 :: int]) \<and> [5, -1, 20 :: int] ! nat 1 < 0"
    by simp
  note whole = negative_slots_are_skipped[where slot_mapping = "[-1, -1]" and st = ?st,
      THEN conjunct2, THEN mp, OF neg]
  note single = negative_slots_are_skipped[where slot_mapping = "[5, -1, 20]" and st = ?st,
      THEN conjunct1, THEN spec, THEN spec, THEN spec, THEN mp, OF tok]
  show ?thesis
    by (intro conjI whole[THEN conjunct1] whole[THEN conjunct2]
          single[THEN conjunct1] single[THEN conjunct2])
qed


lemma copy_blocks_stats_no_pairs: "copy_blocks_stats ks 0 n = Inr ()"
  by (induction ks) auto

lemma product_no_pairs: "List.product ls [] = []"
  by (induction ls) auto

lemma launch_empty_pairs:
  "launch body (List.product ls []) bdim st = Some st"
  by (simp add: launch_def product_no_pairs)

text \<open>
  Claim C8, as amended. \<open>copy_blocks\<close> raises a \<open>PreconditionViolation\<close> when the
  numbers of key and value layers differ, and when the first key cache is not
  device-resident; whatever it raises, it has enqueued nothing. With no layers at all it
  returns normally and enqueues nothing. With an empty block mapping, on a call that
  passes the checks, it returns normally and its launch, over an empty grid, leaves memory
  unchanged.
\<close>

theorem copy_blocks_preconditions:
  fixes st :: "'c store"
  shows
  "(length key_caches \<noteq> length value_caches \<longrightarrow>
      (copy_blocks key_caches value_caches block_mapping :: error option \<times> 'c work list)
        = (Some PreconditionViolation, []))
   \<and> (length key_caches = length value_caches \<and> key_caches \<noteq> []
       \<and> \<not> is_cuda (device (key_caches ! 0)) \<longrightarrow>
      (copy_blocks key_caches value_caches block_mapping :: error option \<times> 'c work list)
        = (Some PreconditionViolation, []))
   \<and> (\<forall>e q. (copy_blocks key_caches value_caches block_mapping :: error option \<times> 'c work list)
               = (Some e, q) \<longrightarrow> q = [])
   \<and> (copy_blocks [] [] block_mapping :: error option \<times> 'c work list) = (None, [])
   \<and> (bm_pairs block_mapping = [] \<and> length key_caches = length value_caches
       \<and> key_caches \<noteq> [] \<and> is_cuda (device (key_caches ! 0))
       \<and> first_numel (key_caches ! 0) = Inr numel
       \<and> VLLM_DISPATCH_FLOATING_AND_BYTE_TYPES (dtype (key_caches ! 0)) = Inr () \<longrightarrow>
      (\<exists>k. (copy_blocks key_caches value_caches block_mapping :: error option \<times> 'c work list)
               = (None, [k]) \<and> k st = Some st))"
proof (intro conjI impI allI)
  assume "length key_caches \<noteq> length value_caches"
  then show "(copy_blocks key_caches value_caches block_mapping :: error option \<times> 'c work list)
        = (Some PreconditionViolation, [])"
    by (simp add: copy_blocks_def)
next
  assume "length key_caches = length value_caches \<and> key_caches \<noteq> []
       \<and> \<not> is_cuda (device (key_caches ! 0))"
  then show "(copy_blocks key_caches value_caches block_mapping :: error option \<times> 'c work list)
        = (Some PreconditionViolation, [])"
    by (auto simp: copy_blocks_def)
next
  fix e q
  assume "(copy_blocks key_caches value_caches block_mapping :: error option \<times> 'c work list)
               = (Some e, q)"
  then show "q = []"
    by (simp add: copy_blocks_def Let_def split: if_splits sum.splits)
next
  show "(copy_blocks [] [] block_mapping :: error option \<times> 'c work list) = (None, [])"
    by (simp add: copy_blocks_def)
next
  assume a: "bm_pairs block_mapping = [] \<and> length key_caches = length value_caches
       \<and> key_caches \<noteq> [] \<and> is_cuda (device (key_caches ! 0))
       \<and> first_numel (key_caches ! 0) = Inr numel
       \<and> VLLM_DISPATCH_FLOATING_AND_BYTE_TYPES (dtype (key_caches ! 0)) = Inr ()"
  then have "(copy_blocks key_caches value_caches block_mapping :: error option \<times> 'c work list)
      = (None, [launch (copy_blocks_kernel (map data_ptr key_caches) (map data_ptr value_caches)
                          [] (to_int numel))
                  (List.product [0..<length key_caches] []) (min 1024 (to_int numel))])"
    by (auto simp: copy_blocks_def bnd_simps as_int_simps to_int_0 copy_blocks_stats_no_pairs)
  then show "\<exists>k. (copy_blocks key_caches value_caches block_mapping :: error option \<times> 'c work list)
               = (None, [k]) \<and> k st = Some st"
    by (simp add: launch_empty_pairs)
qed

text \<open>
  Claim C8 as stated fails: only the device of \<open>key_caches[0]\<close> is inspected. With a
  device-resident key cache and a host-resident value cache, \<open>copy_blocks\<close> raises
  nothing and launches the kernel.
\<close>

theorem copy_blocks_unchecked_residency:
  "\<not> is_cuda (device \<lparr>data_ptr = 2, device = Device CPU 0, dtype = kHalf, sizes = [8, 4], strides = [4, 1]\<rparr>)
   \<and> fst (copy_blocks
        [\<lparr>data_ptr = 1, device = Device CUDA 0, dtype = kHalf, sizes = [8, 4], strides = [4, 1]\<rparr>]
        [\<lparr>data_ptr = 2, device = Device CPU 0, dtype = kHalf, sizes = [8, 4], strides = [4, 1]\<rparr>]
        \<lparr>bm_device = Device CUDA 0, bm_pairs = [(2, 5)]\<rparr> :: error option \<times> nat work list) = None
   \<and> length (snd (copy_blocks
        [\<lparr>data_ptr = 1, device = Device CUDA 0, dtype = kHalf, sizes = [8, 4], strides = [4, 1]\<rparr>]
        [\<lparr>data_ptr = 2, device = Device CPU 0, dtype = kHalf, sizes = [8, 4], strides = [4, 1]\<rparr>]
        \<lparr>bm_device = Device CUDA 0, bm_pairs = [(2, 5)]\<rparr> :: error option \<times> nat work list)) = 1"
  by (simp add: copy_blocks_def is_cuda_def first_numel_def bnd_simps as_int_simps to_int_def
      size_of_def VLLM_DISPATCH_FLOATING_AND_BYTE_TYPES_def)

text \<open>
  The theorem at a call with one key layer and no value layer, a call with host-resident
  caches, a call with no layers, and a call with an empty block mapping.
\<close>

theorem copy_blocks_preconditions_witness:
  "(copy_blocks
      [\<lparr>data_ptr = 1, device = Device CUDA 0, dtype = kHalf, sizes = [8, 4], strides = [4, 1]\<rparr>]
      []
      \<lparr>bm_device = Device CUDA 0, bm_pairs = [(2, 5)]\<rparr> :: error option \<times> nat work list)
     = (Some PreconditionViolation, [])
   \<and> (copy_blocks
      [\<lparr>data_ptr = 1, device = Device CPU 0, dtype = kHalf, sizes = [8, 4], strides = [4, 1]\<rparr>]
      [\<lparr>data_ptr = 2, device = Device CPU 0, dtype = kHalf, sizes = [8, 4], strides = [4, 1]\<rparr>]
      \<lparr>bm_device = Device CUDA 0, bm_pairs = [(2, 5)]\<rparr> :: error option \<times> nat work list)
     = (Some PreconditionViolation, [])
   \<and> (copy_blocks [] [] \<lparr>bm_device = Device CUDA 0, bm_pairs = [(2, 5)]\<rparr>
        :: error option \<times> nat work list) = (None, [])
   \<and> (\<exists>k. (copy_blocks
      [\<lparr>data_ptr = 1, device = Device CUDA 0, dtype = kHalf, sizes = [8, 4], strides = [4, 1]\<rparr>]
      [\<lparr>data_ptr = 2, device = Device CUDA 0, dtype = kHalf, sizes = [8, 4], strides = [4, 1]\<rparr>]
      \<lparr>bm_device = Device CUDA 0, bm_pairs = []\<rparr> :: error option \<times> nat work list)
       = (None, [k]) \<and> k (\<lambda>p. replicate 32 0) = Some (\<lambda>p. replicate 32 0))"
proof -
  let ?k = "\<lparr>data_ptr = 1, device = Device CUDA 0, dtype = kHalf, sizes = [8, 4], strides = [4, 1]\<rparr>"
  let ?v = "\<lparr>data_ptr = 2, device = Device CUDA 0, dtype = kHalf, sizes = [8, 4], strides = [4, 1]\<rparr>"
  let ?kh = "\<lparr>data_ptr = 1, device = Device CPU 0, dtype = kHalf, sizes = [8, 4], strides = [4, 1]\<rparr>"
  let ?vh = "\<lparr>data_ptr = 2, device = Device CPU 0, dtype = kHalf, sizes = [8, 4], strides = [4, 1]\<rparr>"
  let ?bm = "\<lparr>bm_device = Device CUDA 0, bm_pairs = [(2, 5)]\<rparr>"
  let ?none = "\<lparr>bm_device = Device CUDA 0, bm_pairs = []\<rparr>"
  let ?st = "\<lambda>p::nat. replicate 32 (0::nat)"
  have a: "length [?k] \<noteq> length ([] :: Tensor list)" by simp
  have b: "length [?kh] = length [?vh] \<and> [?kh] \<noteq> [] \<and> \<not> is_cuda (device ([?kh] ! 0))"
    by (simp add: is_cuda_def)
  have c: "bm_pairs ?none = [] \<and> length [?k] = length [?v]
       \<and> [?k] \<noteq> [] \<and> is_cuda (device ([?k] ! 0))
       \<and> first_numel ([?k] ! 0) = Inr 4
       \<and> VLLM_DISPATCH_FLOATING_AND_BYTE_TYPES (dtype ([?k] ! 0)) = Inr ()"
    by (simp add: is_cuda_def first_numel_def VLLM_DISPATCH_FLOATING_AND_BYTE_TYPES_def)
  have 1: "(copy_blocks [?k] [] ?bm :: error option \<times> nat work list) = (Some PreconditionViolation, [])"
    by (rule copy_blocks_preconditions[where st = ?st, THEN conjunct1, THEN mp, OF a])
  have 2: "(copy_blocks [?kh] [?vh] ?bm :: error option \<times> nat work list) = (Some PreconditionViolation, [])"
    by (rule copy_blocks_preconditions[where st = ?st, THEN conjunct2, THEN conjunct1, THEN mp, OF b])
  have 3: "(copy_blocks [] [] ?bm :: error option \<times> nat work list) = (None, [])"
    by (rule copy_blocks_preconditions[where st = ?st, THEN conjunct2, THEN conjunct2, THEN conjunct2,
          THEN conjunct1])
  have 4: "\<exists>k. (copy_blocks [?k] [?v] ?none :: error option \<times> nat work list) = (None, [k])
              \<and> k ?st = Some ?st"
    by (rule copy_blocks_preconditions[where st = ?st, THEN conjunct2, THEN conjunct2, THEN conjunct2,
          THEN conjunct2, THEN mp, OF c])
  show ?thesis using 1 2 3 4 by (intro conjI)
qed

subsection \<open>copy_blocks\<close>

lemma run_all_cong:
  "(\<And>x s. x \<in> set xs \<Longrightarrow> f x s = g x s) \<Longrightarrow> run_all f xs s = run_all g xs s"
  by (induction xs arbitrary: s) (auto split: option.splits)

lemma bind_run_all:
  "Option.bind (run_all f xs s) (run_all f ys) = run_all f (xs @ ys) s"
  by (simp add: run_all_append split: option.splits)

lemma launch_flat:
  assumes "\<And>b tid s. b \<in> set grid \<Longrightarrow> body b tid bdim s = run_all (M b) (idx b tid) s"
  shows "launch body grid bdim s = run_all (\<lambda>(b, i). M b i) (launch_steps idx grid bdim) s"
proof -
  have inner: "run_all (\<lambda>tid. body b tid bdim) tids s
        = run_all (\<lambda>(b, i). M b i) (concat (map (\<lambda>tid. map (Pair b) (idx b tid)) tids)) s"
    if "b \<in> set grid" for b tids s
  proof (induction tids arbitrary: s)
    case Nil
    then show ?case by simp
  next
    case (Cons t tids)
    have "body b t bdim s = run_all (\<lambda>(b, i). M b i) (map (Pair b) (idx b t)) s"
      by (simp add: assms[OF that] run_all_map)
    then show ?case
      by (simp add: run_all_append Cons.IH split: option.splits)
  qed
  have outer: "run_all (\<lambda>b. run_all (\<lambda>tid. body b tid bdim) [0..bdim - 1]) bs s
        = run_all (\<lambda>(b, i). M b i)
            (concat (map (\<lambda>b. concat (map (\<lambda>tid. map (Pair b) (idx b tid)) [0..bdim - 1])) bs)) s"
    if "set bs \<subseteq> set grid" for bs s
    using that
  proof (induction bs arbitrary: s)
    case Nil
    then show ?case by simp
  next
    case (Cons b bs)
    then show ?case
      by (simp add: run_all_append inner split: option.splits)
  qed
  show ?thesis
    unfolding launch_def launch_steps_def by (rule outer) simp
qed

lemma launch_steps_mem:
  "(b, i) \<in> set (launch_steps idx grid bdim)
     \<longleftrightarrow> b \<in> set grid \<and> (\<exists>tid. 0 \<le> tid \<and> tid < bdim \<and> i \<in> set (idx b tid))"
proof
  assume "(b, i) \<in> set (launch_steps idx grid bdim)"
  then show "b \<in> set grid \<and> (\<exists>tid. 0 \<le> tid \<and> tid < bdim \<and> i \<in> set (idx b tid))"
    by (auto simp: launch_steps_def)
next
  assume "b \<in> set grid \<and> (\<exists>tid. 0 \<le> tid \<and> tid < bdim \<and> i \<in> set (idx b tid))"
  then obtain tid where b: "b \<in> set grid" and t: "tid \<in> {0..bdim - 1}" and i: "i \<in> set (idx b tid)"
    by auto
  from i have "(b, i) \<in> Pair b ` set (idx b tid)" by simp
  with b t show "(b, i) \<in> set (launch_steps idx grid bdim)"
    unfolding launch_steps_def by (simp del: atLeastAtMost_iff) blast
qed

lemma block_decomp:
  fixes d d' N i i' :: int
  assumes "0 \<le> i" "i < N" "0 \<le> i'" "i' < N" "d * N + i = d' * N + i'"
  shows "d = d' \<and> i = i'"
proof -
  have "d = d'"
  proof (rule ccontr)
    assume "d \<noteq> d'"
    from block_disjoint[OF this assms(3,4)] assms(1,2,5) show False by simp
  qed
  then show ?thesis using assms(5) by simp
qed

lemma copy_blocks_kernel_steps:
  "copy_blocks_kernel kps vps ps N b tid bdim s =
     run_all (\<lambda>(isval, i). copy_elem (if isval then vps ! fst b else kps ! fst b)
                              (fst (ps ! snd b) * N) (snd (ps ! snd b) * N) i)
       (map (Pair False) (thread_loop tid N bdim) @ map (Pair True) (thread_loop tid N bdim)) s"
  by (simp add: copy_blocks_kernel_def Let_def run_all_append run_all_map split: option.splits)

lemma copy_elem_Some:
  assumes "copy_elem p soff doff i s = Some s'"
  shows "\<exists>v. load s p (soff + i) = Some v \<and> poke s p (doff + i) v = Some s'"
  using assms by (auto simp: copy_elem_def Let_def split: Option.bind_splits)

lemma copy_elem_defined:
  assumes "0 \<le> soff + i" "soff + i < int (length (s p))" "0 \<le> doff + i" "doff + i < int (length (s p))"
  shows "\<exists>s'. copy_elem p soff doff i s = Some s'"
  using assms by (simp add: copy_elem_def Let_def load_def poke_def)

text \<open>
  The launch of \<open>copy_blocks_kernel\<close> over any enumeration of the grid, for blocks of
  \<open>N\<close> elements and a mapping whose destinations are distinct and are not sources.
\<close>

lemma copy_blocks_launch:
  fixes st :: "'c store"
  assumes N: "0 < N" and bdim: "0 < bdim"
    and len: "length kps = L" "length vps = L"
    and grid: "set grid = {0..<L} \<times> {0..<length ps}"
    and dist: "distinct (map snd ps)"
    and disj: "snd ` set ps \<inter> fst ` set ps = {}"
    and rng: "\<And>p a d. p \<in> set kps \<union> set vps \<Longrightarrow> (a, d) \<in> set ps \<Longrightarrow>
                0 \<le> a \<and> (a + 1) * N \<le> int (length (st p)) \<and> 0 \<le> d \<and> (d + 1) * N \<le> int (length (st p))"
  shows "\<exists>st'. launch (copy_blocks_kernel kps vps ps N) grid bdim st = Some st'
          \<and> (\<forall>p. length (st' p) = length (st p))
          \<and> (\<forall>p \<in> set kps \<union> set vps. \<forall>(a, d) \<in> set ps. \<forall>i. 0 \<le> i \<and> i < N \<longrightarrow>
                 load st' p (d * N + i) = load st p (a * N + i))
          \<and> (\<forall>p j. p \<notin> set kps \<union> set vps \<or> (\<forall>(a, d) \<in> set ps. \<not> (d * N \<le> j \<and> j < (d + 1) * N))
                 \<longrightarrow> load st' p j = load st p j)"
proof -
  define Bufs where "Bufs = set kps \<union> set vps"
  define I where "I = (\<lambda>s::'c store. (\<forall>p. length (s p) = length (st p))
      \<and> (\<forall>p j. load s p j = load st p j
            \<or> (p \<in> Bufs \<and> (\<exists>(a, d) \<in> set ps. \<exists>i. 0 \<le> i \<and> i < N \<and> j = d * N + i
                                \<and> load s p j = load st p (a * N + i)))))"
  define Q where "Q = (\<lambda>(y::nat \<times> (int \<times> int) \<times> int) (s::'c store).
      (case y of (p, (a, d), i) \<Rightarrow>
         (a, d) \<in> set ps \<and> 0 \<le> i \<and> i < N \<longrightarrow> load s p (d * N + i) = load st p (a * N + i)))"
  define idx where "idx = (\<lambda>(b::nat \<times> nat) tid.
      map (Pair False) (thread_loop tid N bdim) @ map (Pair True) (thread_loop tid N bdim))"
  define M where "M = (\<lambda>(b::nat \<times> nat) (isval, i).
      copy_elem (if isval then vps ! fst b else kps ! fst b)
        (fst (ps ! snd b) * N) (snd (ps ! snd b) * N) i :: 'c work)"
  define g where "g = (\<lambda>(b::nat \<times> nat, (isval, i::int)).
      (if isval then vps ! fst b else kps ! fst b, ps ! snd b, i))"
  have flat: "launch (copy_blocks_kernel kps vps ps N) grid bdim s
        = run_all (\<lambda>(b, i). M b i) (launch_steps idx grid bdim) s" for s
    by (rule launch_flat) (simp add: copy_blocks_kernel_steps idx_def M_def)
  have src_clean: "load s p (a * N + i) = load st p (a * N + i)"
    if "I s" "(a, d) \<in> set ps" "0 \<le> i" "i < N" for s p a d i
  proof -
    from that(1) have "load s p (a * N + i) = load st p (a * N + i)
        \<or> (\<exists>(a', d') \<in> set ps. \<exists>i'. 0 \<le> i' \<and> i' < N \<and> a * N + i = d' * N + i')"
      unfolding I_def by blast
    moreover have "\<not> (\<exists>(a', d') \<in> set ps. \<exists>i'. 0 \<le> i' \<and> i' < N \<and> a * N + i = d' * N + i')"
    proof
      assume "\<exists>(a', d') \<in> set ps. \<exists>i'. 0 \<le> i' \<and> i' < N \<and> a * N + i = d' * N + i'"
      then obtain a' d' i' where m: "(a', d') \<in> set ps" and "0 \<le> i'" "i' < N" "a * N + i = d' * N + i'"
        by blast
      with block_decomp[of i N i' a d'] that have "a = d'" by simp
      moreover have "a \<in> fst ` set ps" using that(2) by force
      moreover have "d' \<in> snd ` set ps" using m by force
      ultimately show False using disj by blast
    qed
    ultimately show ?thesis by blast
  qed
  have step: "\<exists>s'. (\<lambda>(b, i). M b i) x s = Some s' \<and> I s' \<and> Q (g x) s'
                 \<and> (\<forall>y. y \<noteq> g x \<longrightarrow> Q y s \<longrightarrow> Q y s')"
    if x: "x \<in> set (launch_steps idx grid bdim)" and Is: "I s" for x s
  proof -
    obtain l pi isval i where xeq: "x = ((l, pi), (isval, i))" by (metis surj_pair)
    from x have lp: "l < L" "pi < length ps"
      and "\<exists>tid. 0 \<le> tid \<and> tid < bdim \<and> (isval, i) \<in> set (idx (l, pi) tid)"
      unfolding xeq launch_steps_mem grid by auto
    then have i: "0 \<le> i" "i < N"
      using bdim by (auto simp: idx_def thread_loop_set)
    define p where "p = (if isval then vps ! l else kps ! l)"
    obtain a d where ad: "ps ! pi = (a, d)" by (cases "ps ! pi")
    have adin: "(a, d) \<in> set ps" using lp(2) ad by (metis nth_mem)
    have pin: "p \<in> set kps \<union> set vps" using lp(1) len by (auto simp: p_def)
    have r: "0 \<le> a" "(a + 1) * N \<le> int (length (st p))" "0 \<le> d" "(d + 1) * N \<le> int (length (st p))"
      using rng[OF pin adin] by auto
    have slen: "length (s p) = length (st p)" using Is by (simp add: I_def)
    have a_lo: "0 \<le> a * N + i" using r(1) N i by simp
    have a_hi: "a * N + i < int (length (st p))" using r(2) i by (simp add: algebra_simps)
    have d_lo: "0 \<le> d * N + i" using r(3) N i by simp
    have d_hi: "d * N + i < int (length (st p))" using r(4) i by (simp add: algebra_simps)
    have Mx: "(\<lambda>(b, i). M b i) x = copy_elem p (a * N) (d * N) i"
      by (simp add: xeq M_def p_def ad)
    have gx: "g x = (p, (a, d), i)" by (simp add: xeq g_def p_def ad)
    obtain s' where s': "copy_elem p (a * N) (d * N) i s = Some s'"
      using copy_elem_defined[of "a * N" i s p "d * N"] a_lo a_hi d_lo d_hi slen by auto
    from copy_elem_Some[OF s'] obtain v where v: "load s p (a * N + i) = Some v"
      and pk: "poke s p (d * N + i) v = Some s'" by blast
    have v0: "load st p (a * N + i) = Some v"
      using src_clean[OF Is adin i] v by simp
    note lp' = load_poke[OF pk]
    have "I s'"
      unfolding I_def
    proof (intro conjI allI)
      fix q show "length (s' q) = length (st q)"
        using poke_length[OF pk] Is by (simp add: I_def)
    next
      fix q j
      show "load s' q j = load st q j
            \<or> (q \<in> Bufs \<and> (\<exists>(a, d) \<in> set ps. \<exists>i. 0 \<le> i \<and> i < N \<and> j = d * N + i
                                \<and> load s' q j = load st q (a * N + i)))"
      proof (cases "q = p \<and> j = d * N + i")
        case True
        then have "load s' q j = load st q (a * N + i)" using lp' v0 by simp
        then show ?thesis using True pin adin i unfolding Bufs_def by blast
      next
        case False
        then have "load s' q j = load s q j" using lp' by auto
        then show ?thesis using Is unfolding I_def by simp
      qed
    qed
    moreover have "Q (g x) s'"
      using lp' v0 by (simp add: gx Q_def)
    moreover have "\<forall>y. y \<noteq> g x \<longrightarrow> Q y s \<longrightarrow> Q y s'"
    proof (intro allI impI)
      fix y assume ne: "y \<noteq> g x" and Qy: "Q y s"
      obtain q a' d' i' where y: "y = (q, (a', d'), i')" by (metis surj_pair)
      show "Q y s'"
        unfolding y Q_def
      proof (clarify)
        assume m: "(a', d') \<in> set ps" "0 \<le> i'" "i' < N"
        have "\<not> (q = p \<and> d' * N + i' = d * N + i)"
        proof
          assume same: "q = p \<and> d' * N + i' = d * N + i"
          then have "d' = d \<and> i' = i" using block_decomp[of i' N i d' d] m i by simp
          moreover from this have "a' = a"
            using distinct_map_eq[OF dist m(1) adin] by simp
          ultimately show False using ne same by (simp add: y gx)
        qed
        then have "load s' q (d' * N + i') = load s q (d' * N + i')" using lp' by auto
        then show "load s' q (d' * N + i') = load st q (a' * N + i')"
          using Qy m by (simp add: y Q_def)
      qed
    qed
    ultimately show ?thesis using s' by (simp add: Mx)
  qed
  have init: "I st" by (simp add: I_def)
  from run_all_establish[of "launch_steps idx grid bdim" I "\<lambda>(b, i). M b i" Q g, OF step init]
  obtain st' where run: "run_all (\<lambda>(b, i). M b i) (launch_steps idx grid bdim) st = Some st'"
    and Ist': "I st'" and Qall: "\<forall>x\<in>set (launch_steps idx grid bdim). Q (g x) st'"
    by blast
  have copied: "load st' p (d * N + i) = load st p (a * N + i)"
    if pin: "p \<in> set kps \<union> set vps" and adin: "(a, d) \<in> set ps" and i: "0 \<le> i" "i < N" for p a d i
  proof -
    obtain pi where pi: "pi < length ps" "ps ! pi = (a, d)"
      using adin by (metis in_set_conv_nth)
    obtain l isval where l: "l < L" "p = (if isval then vps ! l else kps ! l)"
      using pin len by (metis Un_iff in_set_conv_nth)
    have "i \<in> set (concat (map (\<lambda>tid. thread_loop tid N bdim) [0..bdim - 1]))"
      by (rule thread_loop_cover[OF bdim i])
    then obtain tid where tid: "0 \<le> tid" "tid < bdim" "i \<in> set (thread_loop tid N bdim)"
      by auto
    then have "(isval, i) \<in> set (idx (l, pi) tid)" by (cases isval) (auto simp: idx_def)
    then have "((l, pi), (isval, i)) \<in> set (launch_steps idx grid bdim)"
      unfolding launch_steps_mem grid using l(1) pi(1) tid by auto
    from Qall[rule_format, OF this] show ?thesis
      using adin i by (auto simp: g_def Q_def l(2) pi(2))
  qed
  have frame: "load st' p j = load st p j"
    if "p \<notin> set kps \<union> set vps \<or> (\<forall>(a, d) \<in> set ps. \<not> (d * N \<le> j \<and> j < (d + 1) * N))" for p j
  proof -
    from Ist' have "load st' p j = load st p j
            \<or> (p \<in> Bufs \<and> (\<exists>(a, d) \<in> set ps. \<exists>i. 0 \<le> i \<and> i < N \<and> j = d * N + i))"
      unfolding I_def by blast
    moreover have "\<not> (p \<in> Bufs \<and> (\<exists>(a, d) \<in> set ps. \<exists>i. 0 \<le> i \<and> i < N \<and> j = d * N + i))"
      using that unfolding Bufs_def by (auto simp: algebra_simps)
    ultimately show ?thesis by blast
  qed
  have lens: "\<forall>p. length (st' p) = length (st p)" using Ist' by (simp add: I_def)
  have ran: "launch (copy_blocks_kernel kps vps ps N) grid bdim st = Some st'"
    using run flat[of st] by simp
  show ?thesis
    using ran lens copied frame by (intro exI[of _ st']) auto
qed

lemma store_eqI:
  assumes "\<And>p. length (s p) = length (t p)" "\<And>p j. load s p j = load t p j"
  shows "s = t"
proof
  fix p
  show "s p = t p"
  proof (rule nth_equalityI)
    show "length (s p) = length (t p)" by (rule assms(1))
  next
    fix k assume k: "k < length (s p)"
    from assms(2)[of p "int k"] k assms(1)[of p] show "s p ! k = t p ! k"
      by (simp add: load_def)
  qed
qed

text \<open>
  Under the same conditions the order in which the blocks of the grid run does not
  matter: any two enumerations of the grid give the same memory.
\<close>

lemma copy_blocks_launch_schedule:
  fixes st :: "'c store"
  assumes "0 < N" "0 < bdim" "length kps = L" "length vps = L"
    and "set grid = {0..<L} \<times> {0..<length ps}" "set grid' = {0..<L} \<times> {0..<length ps}"
    and "distinct (map snd ps)" "snd ` set ps \<inter> fst ` set ps = {}"
    and "\<And>p a d. p \<in> set kps \<union> set vps \<Longrightarrow> (a, d) \<in> set ps \<Longrightarrow>
                0 \<le> a \<and> (a + 1) * N \<le> int (length (st p)) \<and> 0 \<le> d \<and> (d + 1) * N \<le> int (length (st p))"
  shows "launch (copy_blocks_kernel kps vps ps N) grid bdim st
       = launch (copy_blocks_kernel kps vps ps N) grid' bdim st"
proof -
  have "\<exists>st'. launch (copy_blocks_kernel kps vps ps N) grid bdim st = Some st'
          \<and> (\<forall>p. length (st' p) = length (st p))
          \<and> (\<forall>p \<in> set kps \<union> set vps. \<forall>(a, d) \<in> set ps. \<forall>i. 0 \<le> i \<and> i < N \<longrightarrow>
                 load st' p (d * N + i) = load st p (a * N + i))
          \<and> (\<forall>p j. p \<notin> set kps \<union> set vps \<or> (\<forall>(a, d) \<in> set ps. \<not> (d * N \<le> j \<and> j < (d + 1) * N))
                 \<longrightarrow> load st' p j = load st p j)"
    by (rule copy_blocks_launch[OF assms(1-5) assms(7,8)]) (use assms(9) in blast)
  then obtain s1 where s1: "launch (copy_blocks_kernel kps vps ps N) grid bdim st = Some s1"
    "\<forall>p. length (s1 p) = length (st p)"
    "\<And>p a d i. p \<in> set kps \<union> set vps \<Longrightarrow> (a, d) \<in> set ps \<Longrightarrow> 0 \<le> i \<Longrightarrow> i < N \<Longrightarrow>
                 load s1 p (d * N + i) = load st p (a * N + i)"
    "\<And>p j. p \<notin> set kps \<union> set vps \<or> (\<forall>(a, d) \<in> set ps. \<not> (d * N \<le> j \<and> j < (d + 1) * N))
                 \<Longrightarrow> load s1 p j = load st p j"
    by blast
  have "\<exists>st'. launch (copy_blocks_kernel kps vps ps N) grid' bdim st = Some st'
          \<and> (\<forall>p. length (st' p) = length (st p))
          \<and> (\<forall>p \<in> set kps \<union> set vps. \<forall>(a, d) \<in> set ps. \<forall>i. 0 \<le> i \<and> i < N \<longrightarrow>
                 load st' p (d * N + i) = load st p (a * N + i))
          \<and> (\<forall>p j. p \<notin> set kps \<union> set vps \<or> (\<forall>(a, d) \<in> set ps. \<not> (d * N \<le> j \<and> j < (d + 1) * N))
                 \<longrightarrow> load st' p j = load st p j)"
    by (rule copy_blocks_launch[OF assms(1-4) assms(6) assms(7,8)]) (use assms(9) in blast)
  then obtain s2 where s2: "launch (copy_blocks_kernel kps vps ps N) grid' bdim st = Some s2"
    "\<forall>p. length (s2 p) = length (st p)"
    "\<And>p a d i. p \<in> set kps \<union> set vps \<Longrightarrow> (a, d) \<in> set ps \<Longrightarrow> 0 \<le> i \<Longrightarrow> i < N \<Longrightarrow>
                 load s2 p (d * N + i) = load st p (a * N + i)"
    "\<And>p j. p \<notin> set kps \<union> set vps \<or> (\<forall>(a, d) \<in> set ps. \<not> (d * N \<le> j \<and> j < (d + 1) * N))
                 \<Longrightarrow> load s2 p j = load st p j"
    by blast
  have "s1 = s2"
  proof (rule store_eqI)
    fix p show "length (s1 p) = length (s2 p)" using s1(2) s2(2) by simp
  next
    fix p j
    show "load s1 p j = load s2 p j"
    proof (cases "p \<notin> set kps \<union> set vps \<or> (\<forall>(a, d) \<in> set ps. \<not> (d * N \<le> j \<and> j < (d + 1) * N))")
      case True
      then have "load s1 p j = load st p j" "load s2 p j = load st p j"
        by (rule s1(4), rule s2(4))
      then show ?thesis by simp
    next
      case False
      then obtain a d where pin: "p \<in> set kps \<union> set vps" and ad: "(a, d) \<in> set ps"
        and j: "d * N \<le> j" "j < (d + 1) * N" by blast
      define i where "i = j - d * N"
      have i: "0 \<le> i" "i < N" "j = d * N + i" using j by (simp_all add: i_def algebra_simps)
      show ?thesis unfolding i(3) using s1(3)[OF pin ad i(1,2)] s2(3)[OF pin ad i(1,2)] by simp
    qed
  qed
  then show ?thesis using s1(1) s2(1) by simp
qed

lemma copy_blocks_stats_ok:
  "\<forall>t \<in> set ks. sizes t \<noteq> [] \<Longrightarrow> numel \<noteq> 0 \<Longrightarrow> copy_blocks_stats ks n numel = Inr ()"
  by (induction ks) (auto simp: bnd_def size_of_def)

text \<open>
  Claim C3, as amended. Take a call that passes the checks, with non-empty blocks of at
  most \<open>2 ^ 30\<close> elements, at most 65535 pairs, and a block mapping whose destination
  blocks are distinct, are no source blocks and lie, like the source blocks, inside every
  layer's key and value buffer. Then \<open>copy_blocks\<close> launches one kernel, and once it
  has run, in the key buffer and in the value buffer of every layer, every element of
  block \<open>dst\<close> is the element block \<open>src\<close> held before the call and block \<open>src\<close>
  is as it was. Nothing outside the destination blocks of these buffers changes.
\<close>

theorem copy_blocks_copies_blocks:
  fixes st :: "'c store"
  assumes layers: "length key_caches = length value_caches" "key_caches \<noteq> []"
    and dev: "is_cuda (device (key_caches ! 0))"
    and numel: "first_numel (key_caches ! 0) = Inr numel" "0 < numel" "numel \<le> 2 ^ 30"
    and pairs: "length (bm_pairs block_mapping) \<le> 65535"
    and dispatch: "VLLM_DISPATCH_FLOATING_AND_BYTE_TYPES (dtype (key_caches ! 0)) = Inr ()"
    and dims: "\<forall>t \<in> set key_caches. sizes t \<noteq> []"
    and disj: "snd ` set (bm_pairs block_mapping) \<inter> fst ` set (bm_pairs block_mapping) = {}"
    and valid: "\<forall>t \<in> set key_caches \<union> set value_caches.
                  valid_block_mapping (bm_pairs block_mapping) numel
                    (length (st (data_ptr t))) (length (st (data_ptr t)))"
  shows "\<exists>k st'. copy_blocks key_caches value_caches block_mapping = (None, [k])
          \<and> k st = Some st'
          \<and> (\<forall>t \<in> set key_caches \<union> set value_caches. \<forall>(s, d) \<in> set (bm_pairs block_mapping).
                \<forall>i. 0 \<le> i \<and> i < numel \<longrightarrow>
                  load st' (data_ptr t) (d * numel + i) = load st (data_ptr t) (s * numel + i)
                \<and> load st' (data_ptr t) (s * numel + i) = load st (data_ptr t) (s * numel + i))
          \<and> (\<forall>p j. p \<notin> data_ptr ` (set key_caches \<union> set value_caches)
                     \<or> (\<forall>(s, d) \<in> set (bm_pairs block_mapping).
                            \<not> (d * numel \<le> j \<and> j < (d + 1) * numel))
                 \<longrightarrow> load st' p j = load st p j)"
proof -
  define ps where "ps = bm_pairs block_mapping"
  define kps where "kps = map data_ptr key_caches"
  define vps where "vps = map data_ptr value_caches"
  define k where "k = (launch (copy_blocks_kernel kps vps ps numel)
                         (List.product [0..<length key_caches] [0..<length ps])
                         (min 1024 numel) :: 'c work)"
  have nz: "numel \<noteq> 0" using numel(2) by simp
  have fits: "to_int numel = numel" "to_int (int (length ps)) = int (length ps)"
    using numel(2,3) pairs by (simp_all add: to_int_fits ps_def)
  have call: "copy_blocks key_caches value_caches block_mapping = (None, [k])"
    using layers dev numel(1) dispatch copy_blocks_stats_ok[OF dims nz] fits pairs
    by (auto simp: copy_blocks_def bnd_simps as_int_simps k_def kps_def vps_def ps_def)
  have bufs: "set kps \<union> set vps = data_ptr ` (set key_caches \<union> set value_caches)"
    by (auto simp: kps_def vps_def)
  have dist: "distinct (map snd ps)"
    using valid layers(2) by (cases key_caches) (auto simp: valid_block_mapping_def ps_def)
  have rng: "0 \<le> a \<and> (a + 1) * numel \<le> int (length (st p)) \<and> 0 \<le> d \<and> (d + 1) * numel \<le> int (length (st p))"
    if "p \<in> set kps \<union> set vps" "(a, d) \<in> set ps" for p a d
    using that valid unfolding bufs by (auto simp: valid_block_mapping_def ps_def)
  have "\<exists>st'. k st = Some st'
          \<and> (\<forall>p. length (st' p) = length (st p))
          \<and> (\<forall>p \<in> set kps \<union> set vps. \<forall>(a, d) \<in> set ps. \<forall>i. 0 \<le> i \<and> i < numel \<longrightarrow>
                 load st' p (d * numel + i) = load st p (a * numel + i))
          \<and> (\<forall>p j. p \<notin> set kps \<union> set vps \<or> (\<forall>(a, d) \<in> set ps. \<not> (d * numel \<le> j \<and> j < (d + 1) * numel))
                 \<longrightarrow> load st' p j = load st p j)"
    unfolding k_def
    by (rule copy_blocks_launch[where L = "length key_caches"])
       (use numel(2) layers disj dist rng in \<open>auto simp: kps_def vps_def ps_def\<close>)
  then obtain st' where run: "k st = Some st'"
    and copied: "\<And>p a d i. p \<in> set kps \<union> set vps \<Longrightarrow> (a, d) \<in> set ps \<Longrightarrow> 0 \<le> i \<Longrightarrow> i < numel \<Longrightarrow>
                 load st' p (d * numel + i) = load st p (a * numel + i)"
    and frame: "\<And>p j. p \<notin> set kps \<union> set vps \<or> (\<forall>(a, d) \<in> set ps. \<not> (d * numel \<le> j \<and> j < (d + 1) * numel))
                 \<Longrightarrow> load st' p j = load st p j"
    by blast
  have src_kept: "load st' p (a * numel + i) = load st p (a * numel + i)"
    if "(a, d) \<in> set ps" "0 \<le> i" "i < numel" for p a d i
  proof (rule frame, rule disjI2, clarify)
    fix a' d' assume m: "(a', d') \<in> set ps" and in_blk: "d' * numel \<le> a * numel + i" "a * numel + i < (d' + 1) * numel"
    have "a \<noteq> d'" using that(1) m disj unfolding ps_def by force
    from block_disjoint[OF this[symmetric] that(2,3)] in_blk show False
      by (simp add: algebra_simps)
  qed
  show ?thesis
    using call run copied src_kept frame unfolding bufs ps_def
    by (intro exI[of _ k] exI[of _ st']) auto
qed

text \<open>
  The theorem at two layers of six blocks of two elements and the mapping
  \<open>[(2, 5)]\<close>: block 5 of every buffer becomes block 2, block 2 stays.
\<close>

theorem copy_blocks_copies_blocks_witness:
  "\<exists>k st'. copy_blocks
        [\<lparr>data_ptr = 1, device = Device CUDA 0, dtype = kHalf, sizes = [6, 2], strides = [2, 1]\<rparr>,
         \<lparr>data_ptr = 2, device = Device CUDA 0, dtype = kHalf, sizes = [6, 2], strides = [2, 1]\<rparr>]
        [\<lparr>data_ptr = 3, device = Device CUDA 0, dtype = kHalf, sizes = [6, 2], strides = [2, 1]\<rparr>,
         \<lparr>data_ptr = 4, device = Device CUDA 0, dtype = kHalf, sizes = [6, 2], strides = [2, 1]\<rparr>]
        \<lparr>bm_device = Device CUDA 0, bm_pairs = [(2, 5)]\<rparr> = (None, [k])
     \<and> k (\<lambda>p. [0, 1, 2, 3, 4, 5, 6, 7, 8, 9, 10, 11 :: nat]) = Some st'
     \<and> load st' 1 10 = Some 4 \<and> load st' 1 11 = Some 5 \<and> load st' 1 4 = Some 4
     \<and> load st' 2 10 = Some 4 \<and> load st' 2 11 = Some 5 \<and> load st' 2 5 = Some 5
     \<and> load st' 3 10 = Some 4 \<and> load st' 4 11 = Some 5 \<and> load st' 4 4 = Some 4
     \<and> load st' 1 0 = Some 0 \<and> load st' 7 10 = Some 10"
proof -
  let ?k1 = "\<lparr>data_ptr = 1, device = Device CUDA 0, dtype = kHalf, sizes = [6, 2], strides = [2, 1]\<rparr>"
  let ?k2 = "\<lparr>data_ptr = 2, device = Device CUDA 0, dtype = kHalf, sizes = [6, 2], strides = [2, 1]\<rparr>"
  let ?v1 = "\<lparr>data_ptr = 3, device = Device CUDA 0, dtype = kHalf, sizes = [6, 2], strides = [2, 1]\<rparr>"
  let ?v2 = "\<lparr>data_ptr = 4, device = Device CUDA 0, dtype = kHalf, sizes = [6, 2], strides = [2, 1]\<rparr>"
  let ?bm = "\<lparr>bm_device = Device CUDA 0, bm_pairs = [(2, 5)]\<rparr>"
  let ?st = "\<lambda>p::nat. [0, 1, 2, 3, 4, 5, 6, 7, 8, 9, 10, 11 :: nat]"
  have h1: "length [?k1, ?k2] = length [?v1, ?v2]" "[?k1, ?k2] \<noteq> []" by simp_all
  have h2: "is_cuda (device ([?k1, ?k2] ! 0))" by (simp add: is_cuda_def)
  have h3: "first_numel ([?k1, ?k2] ! 0) = Inr 2" "0 < (2::int)" "(2::int) \<le> 2 ^ 30"
    by (simp_all add: first_numel_def)
  have hp: "length (bm_pairs ?bm) \<le> 65535" by simp
  have h4: "VLLM_DISPATCH_FLOATING_AND_BYTE_TYPES (dtype ([?k1, ?k2] ! 0)) = Inr ()"
    by (simp add: VLLM_DISPATCH_FLOATING_AND_BYTE_TYPES_def)
  have h5: "\<forall>t \<in> set [?k1, ?k2]. sizes t \<noteq> []" by simp
  have h6: "snd ` set (bm_pairs ?bm) \<inter> fst ` set (bm_pairs ?bm) = {}" by simp
  have h7: "\<forall>t \<in> set [?k1, ?k2] \<union> set [?v1, ?v2].
                  valid_block_mapping (bm_pairs ?bm) 2
                    (length (?st (data_ptr t))) (length (?st (data_ptr t)))"
    by (simp add: valid_block_mapping_def)
  from copy_blocks_copies_blocks[OF h1 h2 h3 hp h4 h5 h6 h7]
  obtain k st' where call: "copy_blocks [?k1, ?k2] [?v1, ?v2] ?bm = (None, [k])"
    and run: "k ?st = Some st'"
    and copied: "\<forall>t \<in> set [?k1, ?k2] \<union> set [?v1, ?v2]. \<forall>(s, d) \<in> set (bm_pairs ?bm).
                \<forall>i. 0 \<le> i \<and> i < 2 \<longrightarrow>
                  load st' (data_ptr t) (d * 2 + i) = load ?st (data_ptr t) (s * 2 + i)
                \<and> load st' (data_ptr t) (s * 2 + i) = load ?st (data_ptr t) (s * 2 + i)"
    and frame: "\<forall>p j. p \<notin> data_ptr ` (set [?k1, ?k2] \<union> set [?v1, ?v2])
                     \<or> (\<forall>(s, d) \<in> set (bm_pairs ?bm). \<not> (d * 2 \<le> j \<and> j < (d + 1) * 2))
                 \<longrightarrow> load st' p j = load ?st p j"
    by blast
  from copied have c: "\<And>p i. p \<in> {1, 2, 3, 4} \<Longrightarrow> 0 \<le> i \<and> i < 2 \<Longrightarrow>
        load st' p (10 + i) = load ?st p (4 + i) \<and> load st' p (4 + i) = load ?st p (4 + i)"
    by simp blast
  have 1: "load st' 1 10 = Some 4" using c[of 1 0] by (simp add: load_def)
  have 2: "load st' 1 11 = Some 5" using c[of 1 1] by (simp add: load_def)
  have 3: "load st' 1 4 = Some 4" using c[of 1 0] by (simp add: load_def)
  have 4: "load st' 2 10 = Some 4" using c[of 2 0] by (simp add: load_def)
  have 5: "load st' 2 11 = Some 5" using c[of 2 1] by (simp add: load_def)
  have 6: "load st' 2 5 = Some 5" using c[of 2 1] by (simp add: load_def)
  have 7: "load st' 3 10 = Some 4" using c[of 3 0] by (simp add: load_def)
  have 8: "load st' 4 11 = Some 5" using c[of 4 1] by (simp add: load_def)
  have 9: "load st' 4 4 = Some 4" using c[of 4 0] by (simp add: load_def)
  have 10: "load st' 1 0 = Some 0" using frame[rule_format, of 1 0] by (simp add: load_def)
  have 11: "load st' 7 10 = Some 10" using frame[rule_format, of 7 10] by (simp add: load_def)
  show ?thesis
    using call run 1 2 3 4 5 6 7 8 9 10 11 by blast
qed

text \<open>
  Claim C3 as stated fails where a destination block of one pair is the source block of
  another: the blocks of the grid read and write the same buffer, and what a pair copies
  then depends on which pairs ran before it. With one layer of four one-element blocks
  holding 10, 11, 12, 13 and the valid mapping \<open>[(1, 2), (2, 3)]\<close>, the launch, run in
  grid order, leaves 11 in block 3 of the key and of the value buffer: what block 1 held
  before the call, not the 12 that block 2 held.
\<close>

theorem copy_blocks_chained_mapping:
  "valid_block_mapping [(1, 2), (2, 3)] 1 4 4
   \<and> map_option (\<lambda>st'. (st' 1, st' 2))
       (synchronize (snd (copy_blocks
          [\<lparr>data_ptr = 1, device = Device CUDA 0, dtype = kHalf, sizes = [4, 1], strides = [1, 1]\<rparr>]
          [\<lparr>data_ptr = 2, device = Device CUDA 0, dtype = kHalf, sizes = [4, 1], strides = [1, 1]\<rparr>]
          \<lparr>bm_device = Device CUDA 0, bm_pairs = [(1, 2), (2, 3)]\<rparr>))
        (\<lambda>p. [10, 11, 12, 13 :: nat]))
     = Some ([10, 11, 11, 11], [10, 11, 11, 11])"
  by code_simp

subsection \<open>reshape_and_cache\<close>



lemma radix_lt:
  fixes d D i N :: int
  assumes "d < D" "0 \<le> i" "i < N"
  shows "d * N + i < D * N"
proof -
  have "(d + 1) * N \<le> D * N" using assms by (intro mult_right_mono) auto
  then show ?thesis using assms by (simp add: algebra_simps)
qed

lemma radix_ge:
  fixes d i N :: int
  shows "0 \<le> d \<Longrightarrow> 0 \<le> i \<Longrightarrow> 0 \<le> N \<Longrightarrow> 0 \<le> d * N + i"
  by simp

lemma div_range:
  fixes i n k :: int
  assumes "0 \<le> i" "i < n * k" "0 < k"
  shows "0 \<le> i div k \<and> i div k < n"
proof
  show "0 \<le> i div k" using assms by (simp add: pos_imp_zdiv_nonneg_iff)
  show "i div k < n"
  proof (rule ccontr)
    assume "\<not> i div k < n"
    then have "n * k \<le> (i div k) * k" using assms(3) by (intro mult_right_mono) auto
    moreover have "(i div k) * k + i mod k = i" by simp
    moreover have "0 \<le> i mod k" using assms(3) by simp
    ultimately show False using assms(2) by linarith
  qed
qed










lemma poke_other: "poke s p i v = Some s' \<Longrightarrow> q \<noteq> p \<Longrightarrow> s' q = s q"
  by (auto simp: poke_def split: if_splits)

lemma poke_defined: "0 \<le> i \<Longrightarrow> i < int (length (s p)) \<Longrightarrow> \<exists>s'. poke s p i v = Some s'"
  by (simp add: poke_def)

lemma load_defined: "0 \<le> i \<Longrightarrow> i < int (length (s p)) \<Longrightarrow> \<exists>v. load s p i = Some v"
  by (simp add: load_def)





lemma stride_of_nonneg: "stride_of t d = Inr n \<Longrightarrow> 0 \<le> n"
  by (auto simp: stride_of_def split: if_splits)




subsection \<open>convert_fp8\<close>

text \<open>
  One launch of \<open>convert_fp8_kernel\<close> over \<open>nb\<close> blocks of \<open>stride\<close> cells: every
  cell of the source range is read, converted and written to the same index of the
  destination; nothing else changes.
\<close>

lemma convert_fp8_launch:
  fixes st :: "'c store" and sc :: "ctype \<Rightarrow> ctype \<Rightarrow> Fp8KVCacheDataType \<Rightarrow> 'c \<Rightarrow> 's \<Rightarrow> 'c"
  assumes stride: "0 \<le> stride" and bdim: "0 < stride \<Longrightarrow> 0 < bdim"
    and room: "nb * stride \<le> int (length (st src))" "nb * stride \<le> int (length (st dst))"
    and sep: "src \<noteq> dst"
  shows "\<exists>st'. launch (convert_fp8_kernel sc Tout Tin dt src dst scale stride) [0..nb - 1] bdim st
                 = Some st'
          \<and> (\<forall>j. 0 \<le> j \<and> j < nb * stride \<longrightarrow>
                 load st' dst j = map_option (\<lambda>v. sc Tout Tin dt v scale) (load st src j)
               \<and> load st src j \<noteq> None)
          \<and> (\<forall>j. \<not> (0 \<le> j \<and> j < nb * stride) \<longrightarrow> load st' dst j = load st dst j)
          \<and> (\<forall>p. p \<noteq> dst \<longrightarrow> st' p = st p)
          \<and> (\<forall>p. length (st' p) = length (st p))"
proof -
  define conv where "conv = (\<lambda>v. sc Tout Tin dt v scale)"
  define I where "I = (\<lambda>s::'c store. (\<forall>p. length (s p) = length (st p))
                         \<and> (\<forall>p. p \<noteq> dst \<longrightarrow> s p = st p)
                         \<and> (\<forall>j. \<not> (0 \<le> j \<and> j < nb * stride) \<longrightarrow> load s dst j = load st dst j))"
  define Q where "Q = (\<lambda>(j::int) (s::'c store). load s dst j = map_option conv (load st src j))"
  define idx where "idx = (\<lambda>(b::int) (tid::int). thread_loop tid stride bdim)"
  define M where "M = (\<lambda>b. convert_fp8_elem sc Tout Tin dt src dst scale stride b)"
  define g where "g = (\<lambda>(b::int, i::int). b * stride + i)"
  have flat: "launch (convert_fp8_kernel sc Tout Tin dt src dst scale stride) [0..nb - 1] bdim s
        = run_all (\<lambda>(b, i). M b i) (launch_steps idx [0..nb - 1] bdim) s" for s
    by (rule launch_flat) (simp add: convert_fp8_kernel_def idx_def M_def)
  have in_list: "0 \<le> b \<and> b < nb \<and> 0 \<le> i \<and> i < stride"
    if "(b, i) \<in> set (launch_steps idx [0..nb - 1] bdim)" for b i
    using that unfolding launch_steps_mem by (auto simp: idx_def thread_loop_set)
  have cell: "0 \<le> b * stride + i \<and> b * stride + i < nb * stride"
    if "0 \<le> b \<and> b < nb \<and> 0 \<le> i \<and> i < stride" for b i
    using that radix_lt[of b nb i stride] by simp
  have step: "\<exists>s'. (\<lambda>(b, i). M b i) y s = Some s' \<and> I s' \<and> Q (g y) s'
                 \<and> (\<forall>z. z \<noteq> g y \<longrightarrow> Q z s \<longrightarrow> Q z s')"
    if yin: "y \<in> set (launch_steps idx [0..nb - 1] bdim)" and Is: "I s" for y s
  proof -
    obtain b i where y: "y = (b, i)" by (cases y)
    define j where "j = b * stride + i"
    have j: "0 \<le> j" "j < nb * stride" using cell[OF in_list[OF yin[unfolded y]]] by (simp_all add: j_def)
    have lens: "\<And>p. length (s p) = length (st p)" and same: "s src = st src"
      using Is sep by (auto simp: I_def)
    obtain v where v: "load st src j = Some v" using load_defined[of j st src] j room by auto
    have "load s src = load st src" by (rule ext) (simp add: load_def same)
    then have v': "load s src j = Some v" using v by simp
    obtain s' where s': "poke s dst j (conv v) = Some s'"
      using poke_defined[of j s dst] j room lens by auto
    have My: "(\<lambda>(b, i). M b i) y s = Some s'"
      using v' s' by (simp add: y M_def convert_fp8_elem_def Let_def j_def conv_def)
    note lp = load_poke[OF s']
    have "I s'"
      unfolding I_def
    proof (intro conjI allI impI)
      fix p show "length (s' p) = length (st p)" using poke_length[OF s'] lens by simp
    next
      fix p assume "p \<noteq> dst"
      then show "s' p = st p" using poke_other[OF s'] Is by (simp add: I_def)
    next
      fix z assume out: "\<not> (0 \<le> z \<and> z < nb * stride)"
      then have "z \<noteq> j" using j by auto
      then show "load s' dst z = load st dst z" using lp Is out by (simp add: I_def)
    qed
    moreover have "Q (g y) s'" using lp v by (simp add: Q_def g_def y j_def)
    moreover have "\<forall>z. z \<noteq> g y \<longrightarrow> Q z s \<longrightarrow> Q z s'"
      using lp by (simp add: Q_def g_def y j_def)
    ultimately show ?thesis using My by blast
  qed
  have init: "I st" by (simp add: I_def)
  from run_all_establish[of "launch_steps idx [0..nb - 1] bdim" I "\<lambda>(b, i). M b i" Q g, OF step init]
  obtain st' where run: "run_all (\<lambda>(b, i). M b i) (launch_steps idx [0..nb - 1] bdim) st = Some st'"
    and Ist': "I st'" and Qall: "\<forall>y\<in>set (launch_steps idx [0..nb - 1] bdim). Q (g y) st'"
    by blast
  have ran: "launch (convert_fp8_kernel sc Tout Tin dt src dst scale stride) [0..nb - 1] bdim st = Some st'"
    using run flat[of st] by simp
  have converted: "load st' dst j = map_option conv (load st src j) \<and> load st src j \<noteq> None"
    if j: "0 \<le> j \<and> j < nb * stride" for j
  proof -
    have pos: "0 < stride" using j stride
      by (metis less_le_trans mult_zero_right order.strict_iff_order)
    then have b: "0 < bdim" by (rule bdim)
    have d: "0 \<le> j div stride \<and> j div stride < nb" using div_range[of j nb stride] j pos by simp
    have m: "0 \<le> j mod stride" "j mod stride < stride" using pos by simp_all
    have "j mod stride \<in> set (concat (map (\<lambda>tid. thread_loop tid stride bdim) [0..bdim - 1]))"
      by (rule thread_loop_cover[OF b m])
    then obtain tid where "0 \<le> tid" "tid < bdim" "j mod stride \<in> set (idx (j div stride) tid)"
      by (auto simp: idx_def)
    then have "(j div stride, j mod stride) \<in> set (launch_steps idx [0..nb - 1] bdim)"
      unfolding launch_steps_mem using d by auto
    from Qall[rule_format, OF this] have "load st' dst j = map_option conv (load st src j)"
      by (simp add: Q_def g_def)
    moreover have "load st src j \<noteq> None" using j room by (simp add: load_def)
    ultimately show ?thesis by simp
  qed
  show ?thesis
    using ran converted Ist' unfolding conv_def I_def by (intro exI[of _ st']) blast
qed

lemma convert_fp8_call:
  assumes "is_cuda (device src_cache)" "is_cuda (device dst_cache)"
    "index (device src_cache) = index (device dst_cache)"
    "size_of src_cache 0 = Inr num_blocks" "stride_of src_cache 0 = Inr block_stride"
    "convert_fp8_types (dtype src_cache) (dtype dst_cache) = Some (Tout, Tin)"
  shows "convert_fp8 sc dst_cache src_cache kv_scale ''auto''
       = (None, [launch (convert_fp8_kernel sc Tout Tin kAuto
                           (data_ptr src_cache) (data_ptr dst_cache) kv_scale block_stride)
                   [0..num_blocks - 1] (min block_stride 512)])"
  unfolding convert_fp8_def Let_def
  by (simp only: assms bnd_simps TORCH_CHECK_def if_True prod.case sum.case option.case refl)

lemma convert_fp8_types_opposite:
  assumes "(dtype a = kByte \<and> (dtype b = kFloat \<or> dtype b = kHalf \<or> dtype b = kBFloat16))
         \<or> ((dtype a = kFloat \<or> dtype a = kHalf \<or> dtype a = kBFloat16) \<and> dtype b = kByte)"
  shows "\<exists>Tb Ta. convert_fp8_types (dtype a) (dtype b) = Some (Tb, Ta)
               \<and> convert_fp8_types (dtype b) (dtype a) = Some (Ta, Tb)"
  using assms by (auto simp: convert_fp8_types_def)

lemma convert_fp8_there_and_back:
  fixes st :: "'c store" and sc :: "ctype \<Rightarrow> ctype \<Rightarrow> Fp8KVCacheDataType \<Rightarrow> 'c \<Rightarrow> 's \<Rightarrow> 'c"
  assumes dev: "is_cuda (device a)" "is_cuda (device b)" "index (device a) = index (device b)"
    and t1: "convert_fp8_types (dtype a) (dtype b) = Some (Tb, Ta)"
    and t2: "convert_fp8_types (dtype b) (dtype a) = Some (Ta, Tb)"
    and shape: "size_of a 0 = Inr num_blocks" "stride_of a 0 = Inr block_stride"
      "size_of b 0 = Inr num_blocks" "stride_of b 0 = Inr block_stride"
    and room: "num_blocks * block_stride \<le> int (length (st (data_ptr a)))"
      "num_blocks * block_stride \<le> int (length (st (data_ptr b)))"
    and sep: "data_ptr a \<noteq> data_ptr b"
  shows "\<exists>k1 k2 st1 st2.
      convert_fp8 sc b a kv_scale ''auto'' = (None, [k1])
    \<and> k1 st = Some st1
    \<and> convert_fp8 sc a b kv_scale ''auto'' = (None, [k2])
    \<and> k2 st1 = Some st2
    \<and> (\<forall>j. 0 \<le> j \<and> j < num_blocks * block_stride \<longrightarrow>
          load st1 (data_ptr b) j
            = map_option (\<lambda>v. sc Tb Ta kAuto v kv_scale) (load st (data_ptr a) j)
        \<and> load st2 (data_ptr a) j
            = map_option (\<lambda>v. sc Ta Tb kAuto (sc Tb Ta kAuto v kv_scale) kv_scale)
                (load st (data_ptr a) j)
        \<and> load st (data_ptr a) j \<noteq> None)
    \<and> (\<forall>j. \<not> (0 \<le> j \<and> j < num_blocks * block_stride) \<longrightarrow>
          load st2 (data_ptr a) j = load st (data_ptr a) j)
    \<and> (\<forall>p. p \<noteq> data_ptr a \<and> p \<noteq> data_ptr b \<longrightarrow> st2 p = st p)
    \<and> (\<forall>p. length (st2 p) = length (st p))"
proof -
  define k1 where "k1 = launch (convert_fp8_kernel sc Tb Ta kAuto (data_ptr a) (data_ptr b) kv_scale block_stride)
                   [0..num_blocks - 1] (min block_stride 512)"
  define k2 where "k2 = launch (convert_fp8_kernel sc Ta Tb kAuto (data_ptr b) (data_ptr a) kv_scale block_stride)
                   [0..num_blocks - 1] (min block_stride 512)"
  have c1: "convert_fp8 sc b a kv_scale ''auto'' = (None, [k1])"
    unfolding k1_def by (rule convert_fp8_call[OF dev shape(1,2) t1])
  have c2: "convert_fp8 sc a b kv_scale ''auto'' = (None, [k2])"
    unfolding k2_def by (rule convert_fp8_call[OF dev(2,1) dev(3)[symmetric] shape(3,4) t2])
  have stride: "0 \<le> block_stride" using shape(2) by (rule stride_of_nonneg)
  have bd: "0 < block_stride \<Longrightarrow> 0 < min block_stride 512" by simp
  have "\<exists>st'. k1 st = Some st'
          \<and> (\<forall>j. 0 \<le> j \<and> j < num_blocks * block_stride \<longrightarrow>
                 load st' (data_ptr b) j = map_option (\<lambda>v. sc Tb Ta kAuto v kv_scale) (load st (data_ptr a) j)
               \<and> load st (data_ptr a) j \<noteq> None)
          \<and> (\<forall>j. \<not> (0 \<le> j \<and> j < num_blocks * block_stride) \<longrightarrow> load st' (data_ptr b) j = load st (data_ptr b) j)
          \<and> (\<forall>p. p \<noteq> data_ptr b \<longrightarrow> st' p = st p)
          \<and> (\<forall>p. length (st' p) = length (st p))"
    unfolding k1_def by (rule convert_fp8_launch[OF stride bd room sep])
  then obtain st1 where r1: "k1 st = Some st1"
    and w1: "\<And>j. 0 \<le> j \<and> j < num_blocks * block_stride \<Longrightarrow>
                 load st1 (data_ptr b) j = map_option (\<lambda>v. sc Tb Ta kAuto v kv_scale) (load st (data_ptr a) j)
               \<and> load st (data_ptr a) j \<noteq> None"
    and o1: "\<And>p. p \<noteq> data_ptr b \<Longrightarrow> st1 p = st p"
    and l1: "\<And>p. length (st1 p) = length (st p)"
    by blast
  have room1: "num_blocks * block_stride \<le> int (length (st1 (data_ptr b)))"
    "num_blocks * block_stride \<le> int (length (st1 (data_ptr a)))"
    using room l1 by simp_all
  have "\<exists>st'. k2 st1 = Some st'
          \<and> (\<forall>j. 0 \<le> j \<and> j < num_blocks * block_stride \<longrightarrow>
                 load st' (data_ptr a) j = map_option (\<lambda>v. sc Ta Tb kAuto v kv_scale) (load st1 (data_ptr b) j)
               \<and> load st1 (data_ptr b) j \<noteq> None)
          \<and> (\<forall>j. \<not> (0 \<le> j \<and> j < num_blocks * block_stride) \<longrightarrow> load st' (data_ptr a) j = load st1 (data_ptr a) j)
          \<and> (\<forall>p. p \<noteq> data_ptr a \<longrightarrow> st' p = st1 p)
          \<and> (\<forall>p. length (st' p) = length (st1 p))"
    unfolding k2_def by (rule convert_fp8_launch[OF stride bd room1 sep[symmetric]])
  then obtain st2 where r2: "k2 st1 = Some st2"
    and w2: "\<And>j. 0 \<le> j \<and> j < num_blocks * block_stride \<Longrightarrow>
                 load st2 (data_ptr a) j = map_option (\<lambda>v. sc Ta Tb kAuto v kv_scale) (load st1 (data_ptr b) j)
               \<and> load st1 (data_ptr b) j \<noteq> None"
    and f2: "\<And>j. \<not> (0 \<le> j \<and> j < num_blocks * block_stride) \<Longrightarrow> load st2 (data_ptr a) j = load st1 (data_ptr a) j"
    and o2: "\<And>p. p \<noteq> data_ptr a \<Longrightarrow> st2 p = st1 p"
    and l2: "\<And>p. length (st2 p) = length (st1 p)"
    by blast
  have inside: "load st1 (data_ptr b) j
            = map_option (\<lambda>v. sc Tb Ta kAuto v kv_scale) (load st (data_ptr a) j)
        \<and> load st2 (data_ptr a) j
            = map_option (\<lambda>v. sc Ta Tb kAuto (sc Tb Ta kAuto v kv_scale) kv_scale)
                (load st (data_ptr a) j)
        \<and> load st (data_ptr a) j \<noteq> None"
    if j: "0 \<le> j \<and> j < num_blocks * block_stride" for j
    using w1[OF j] w2[OF j] by (auto simp: option.map_comp comp_def)
  have outside: "load st2 (data_ptr a) j = load st (data_ptr a) j"
    if "\<not> (0 \<le> j \<and> j < num_blocks * block_stride)" for j
    using f2[OF that] o1[OF sep] by (simp add: load_def)
  have others: "st2 p = st p" if "p \<noteq> data_ptr a \<and> p \<noteq> data_ptr b" for p
    using that o1 o2 by simp
  have lens: "length (st2 p) = length (st p)" for p
    using l1 l2 by simp
  show ?thesis
    using c1 r1 c2 r2 inside outside others lens by blast
qed

text \<open>
  Claim C9, as amended. Let \<open>a\<close> and \<open>b\<close> be two caches on the same GPU, one of them
  wide (float, half or bfloat16) and the other narrow (byte), with the same number of
  blocks (below \<open>2 ^ 31\<close>) and the same block stride (at most \<open>2 ^ 30\<close>), in buffers that
  hold the blocks and are not the same. With the passthrough tag \<open>auto\<close>, whatever
  \<open>scaled_convert\<close> is and whatever the scale: converting \<open>a\<close> into \<open>b\<close> launches the
  kernel instantiated for the two cell types, and the launch leaves in every cell of
  \<open>b\<close> the conversion of the cell of \<open>a\<close> at the same index; converting \<open>b\<close> back into
  \<open>a\<close> launches the opposite instantiation and leaves in every cell of \<open>a\<close> the
  conversion back of the conversion of what it held; cells outside the blocks and other
  buffers keep their contents. Hence the round trip reproduces the buffer of \<open>a\<close>
  exactly, bit for bit, when the passthrough encoding is exactly invertible on the values
  the buffer holds.
\<close>

theorem convert_fp8_passthrough_roundtrip:
  fixes st :: "'c store" and scaled_convert :: "ctype \<Rightarrow> ctype \<Rightarrow> Fp8KVCacheDataType \<Rightarrow> 'c \<Rightarrow> 's \<Rightarrow> 'c"
  assumes dev: "is_cuda (device a)" "is_cuda (device b)" "index (device a) = index (device b)"
    and types: "(dtype a = kByte \<and> (dtype b = kFloat \<or> dtype b = kHalf \<or> dtype b = kBFloat16))
              \<or> ((dtype a = kFloat \<or> dtype a = kHalf \<or> dtype a = kBFloat16) \<and> dtype b = kByte)"
    and shape: "size_of a 0 = Inr num_blocks" "stride_of a 0 = Inr block_stride"
      "size_of b 0 = Inr num_blocks" "stride_of b 0 = Inr block_stride"
    and bounds: "num_blocks < 2 ^ 31" "block_stride \<le> 2 ^ 30"
    and room: "num_blocks * block_stride \<le> int (length (st (data_ptr a)))"
      "num_blocks * block_stride \<le> int (length (st (data_ptr b)))"
    and sep: "data_ptr a \<noteq> data_ptr b"
  shows "\<exists>Tb Ta k1 k2 st1 st2.
      convert_fp8_types (dtype a) (dtype b) = Some (Tb, Ta)
    \<and> convert_fp8_types (dtype b) (dtype a) = Some (Ta, Tb)
    \<and> convert_fp8 scaled_convert b a kv_scale ''auto'' = (None, [k1])
    \<and> k1 st = Some st1
    \<and> convert_fp8 scaled_convert a b kv_scale ''auto'' = (None, [k2])
    \<and> k2 st1 = Some st2
    \<and> (\<forall>j. 0 \<le> j \<and> j < num_blocks * block_stride \<longrightarrow>
          load st1 (data_ptr b) j
            = map_option (\<lambda>v. scaled_convert Tb Ta kAuto v kv_scale) (load st (data_ptr a) j)
        \<and> load st2 (data_ptr a) j
            = map_option (\<lambda>v. scaled_convert Ta Tb kAuto (scaled_convert Tb Ta kAuto v kv_scale) kv_scale)
                (load st (data_ptr a) j)
        \<and> load st (data_ptr a) j \<noteq> None)
    \<and> (\<forall>j. \<not> (0 \<le> j \<and> j < num_blocks * block_stride) \<longrightarrow>
          load st2 (data_ptr a) j = load st (data_ptr a) j)
    \<and> (\<forall>p. p \<noteq> data_ptr a \<and> p \<noteq> data_ptr b \<longrightarrow> st2 p = st p)
    \<and> (passthrough_invertible scaled_convert Ta Tb kv_scale (set (st (data_ptr a))) \<longrightarrow>
          st2 (data_ptr a) = st (data_ptr a))"
proof -
  from convert_fp8_types_opposite[OF types]
  obtain Tb Ta where t1: "convert_fp8_types (dtype a) (dtype b) = Some (Tb, Ta)"
    and t2: "convert_fp8_types (dtype b) (dtype a) = Some (Ta, Tb)"
    by blast
  from convert_fp8_there_and_back[OF dev t1 t2 shape room sep, of scaled_convert kv_scale]
  obtain k1 k2 st1 st2 where c1: "convert_fp8 scaled_convert b a kv_scale ''auto'' = (None, [k1])"
    and r1: "k1 st = Some st1"
    and c2: "convert_fp8 scaled_convert a b kv_scale ''auto'' = (None, [k2])"
    and r2: "k2 st1 = Some st2"
    and inside: "\<forall>j. 0 \<le> j \<and> j < num_blocks * block_stride \<longrightarrow>
          load st1 (data_ptr b) j
            = map_option (\<lambda>v. scaled_convert Tb Ta kAuto v kv_scale) (load st (data_ptr a) j)
        \<and> load st2 (data_ptr a) j
            = map_option (\<lambda>v. scaled_convert Ta Tb kAuto (scaled_convert Tb Ta kAuto v kv_scale) kv_scale)
                (load st (data_ptr a) j)
        \<and> load st (data_ptr a) j \<noteq> None"
    and outside: "\<forall>j. \<not> (0 \<le> j \<and> j < num_blocks * block_stride) \<longrightarrow>
          load st2 (data_ptr a) j = load st (data_ptr a) j"
    and others: "\<forall>p. p \<noteq> data_ptr a \<and> p \<noteq> data_ptr b \<longrightarrow> st2 p = st p"
    and lens: "\<forall>p. length (st2 p) = length (st p)"
    by blast
  have restored: "st2 (data_ptr a) = st (data_ptr a)"
    if inv: "passthrough_invertible scaled_convert Ta Tb kv_scale (set (st (data_ptr a)))"
  proof (rule nth_equalityI)
    show "length (st2 (data_ptr a)) = length (st (data_ptr a))" using lens by simp
  next
    fix n assume "n < length (st2 (data_ptr a))"
    then have n: "n < length (st (data_ptr a))" using lens by simp
    then have v: "load st (data_ptr a) (int n) = Some (st (data_ptr a) ! n)"
      by (simp add: load_def)
    have same: "scaled_convert Ta Tb kAuto (scaled_convert Tb Ta kAuto (st (data_ptr a) ! n) kv_scale) kv_scale
                  = st (data_ptr a) ! n"
      using inv n by (simp add: passthrough_invertible_def)
    have "load st2 (data_ptr a) (int n) = Some (st (data_ptr a) ! n)"
    proof (cases "int n < num_blocks * block_stride")
      case True
      then show ?thesis using inside[THEN spec, of "int n"] v same by simp
    next
      case False
      then show ?thesis using outside[THEN spec, of "int n"] v by simp
    qed
    then show "st2 (data_ptr a) ! n = st (data_ptr a) ! n"
      using n lens by (simp add: load_def)
  qed
  show ?thesis
    using t1 t2 c1 r1 c2 r2 inside outside others restored by blast
qed

text \<open>
  The theorem at a half cache holding 1.0, 2.0, 0.0 and -1.0 and a \<open>scaled_convert\<close>
  that keeps the high byte of a half pattern: the byte cache receives \<open>0x3C\<close>, \<open>0x40\<close>,
  \<open>0x00\<close> and \<open>0xBC\<close>, and the way back restores the four patterns.
\<close>

theorem convert_fp8_passthrough_roundtrip_witness:
  "\<exists>k1 k2 st1 st2.
      convert_fp8 (\<lambda>Tout Tin kv_dt v s. if Tout = c_uint8_t then v div 256 else v * 256)
        \<lparr>data_ptr = 2, device = Device CUDA 0, dtype = kByte, sizes = [2, 2], strides = [2, 1]\<rparr>
        \<lparr>data_ptr = 1, device = Device CUDA 0, dtype = kHalf, sizes = [2, 2], strides = [2, 1]\<rparr>
        (1::int) ''auto'' = (None, [k1])
    \<and> k1 (\<lambda>p. if p = 1 then [15360, 16384, 0, 48128] else [9, 9, 9, 9 :: nat]) = Some st1
    \<and> convert_fp8 (\<lambda>Tout Tin kv_dt v s. if Tout = c_uint8_t then v div 256 else v * 256)
        \<lparr>data_ptr = 1, device = Device CUDA 0, dtype = kHalf, sizes = [2, 2], strides = [2, 1]\<rparr>
        \<lparr>data_ptr = 2, device = Device CUDA 0, dtype = kByte, sizes = [2, 2], strides = [2, 1]\<rparr>
        (1::int) ''auto'' = (None, [k2])
    \<and> k2 st1 = Some st2
    \<and> load st1 2 0 = Some 60 \<and> load st1 2 1 = Some 64
    \<and> load st1 2 2 = Some 0 \<and> load st1 2 3 = Some 188
    \<and> st2 1 = [15360, 16384, 0, 48128]"
proof -
  let ?a = "\<lparr>data_ptr = 1, device = Device CUDA 0, dtype = kHalf, sizes = [2, 2], strides = [2, 1]\<rparr>"
  let ?b = "\<lparr>data_ptr = 2, device = Device CUDA 0, dtype = kByte, sizes = [2, 2], strides = [2, 1]\<rparr>"
  let ?st = "\<lambda>p::nat. if p = 1 then [15360, 16384, 0, 48128] else [9, 9, 9, 9 :: nat]"
  let ?sc = "\<lambda>(Tout::ctype) (Tin::ctype) (kv_dt::Fp8KVCacheDataType) (v::nat) (s::int).
               if Tout = c_uint8_t then v div 256 else v * 256"
  have h1: "is_cuda (device ?a)" "is_cuda (device ?b)" "index (device ?a) = index (device ?b)"
    by (simp_all add: is_cuda_def)
  have h2: "(dtype ?a = kByte \<and> (dtype ?b = kFloat \<or> dtype ?b = kHalf \<or> dtype ?b = kBFloat16))
          \<or> ((dtype ?a = kFloat \<or> dtype ?a = kHalf \<or> dtype ?a = kBFloat16) \<and> dtype ?b = kByte)"
    by simp
  have h3: "size_of ?a 0 = Inr 2" "stride_of ?a 0 = Inr 2" "size_of ?b 0 = Inr 2" "stride_of ?b 0 = Inr 2"
    by (simp_all add: size_of_def stride_of_def)
  have hb: "(2::int) < 2 ^ 31" "(2::int) \<le> 2 ^ 30" by simp_all
  have h4: "2 * 2 \<le> int (length (?st (data_ptr ?a)))" "2 * 2 \<le> int (length (?st (data_ptr ?b)))"
    by simp_all
  have h5: "data_ptr ?a \<noteq> data_ptr ?b" by simp
  from convert_fp8_passthrough_roundtrip[OF h1 h2 h3 hb h4 h5, of ?sc 1]
  obtain Tb Ta k1 k2 st1 st2
    where t1: "convert_fp8_types (dtype ?a) (dtype ?b) = Some (Tb, Ta)"
    and c1: "convert_fp8 ?sc ?b ?a 1 ''auto'' = (None, [k1])"
    and r1: "k1 ?st = Some st1"
    and c2: "convert_fp8 ?sc ?a ?b 1 ''auto'' = (None, [k2])"
    and r2: "k2 st1 = Some st2"
    and inside: "\<forall>j. 0 \<le> j \<and> j < 2 * 2 \<longrightarrow>
          load st1 (data_ptr ?b) j = map_option (\<lambda>v. ?sc Tb Ta kAuto v 1) (load ?st (data_ptr ?a) j)
        \<and> load st2 (data_ptr ?a) j
            = map_option (\<lambda>v. ?sc Ta Tb kAuto (?sc Tb Ta kAuto v 1) 1) (load ?st (data_ptr ?a) j)
        \<and> load ?st (data_ptr ?a) j \<noteq> None"
    and inv: "passthrough_invertible ?sc Ta Tb 1 (set (?st (data_ptr ?a))) \<longrightarrow>
          st2 (data_ptr ?a) = ?st (data_ptr ?a)"
    by blast
  from t1 have T: "Tb = c_uint8_t" "Ta = c_uint16_t" by (simp_all add: convert_fp8_types_def)
  have l0: "load st1 2 0 = Some 60" using inside[THEN spec, of 0] by (simp add: load_def T)
  have l1: "load st1 2 1 = Some 64" using inside[THEN spec, of 1] by (simp add: load_def T)
  have l2: "load st1 2 2 = Some 0" using inside[THEN spec, of 2] by (simp add: load_def T)
  have l3: "load st1 2 3 = Some 188" using inside[THEN spec, of 3] by (simp add: load_def T)
  have "passthrough_invertible ?sc Ta Tb 1 (set (?st (data_ptr ?a)))"
    by (simp add: passthrough_invertible_def T)
  with inv have l4: "st2 1 = [15360, 16384, 0, 48128]" by simp
  show ?thesis using c1 r1 c2 r2 l0 l1 l2 l3 l4 by blast
qed

text \<open>
  Two conversions cannot be inverse to each other on more values than the narrow type
  has: 256 narrow patterns cannot tell more than 256 values apart.
\<close>

lemma narrow_cells_lose_wide_values:
  fixes narrow wide :: "nat \<Rightarrow> nat"
  assumes "\<forall>v. representable c_uint8_t (narrow v)" and "256 < card R"
  shows "\<exists>v \<in> R. wide (narrow v) \<noteq> v"
proof (rule ccontr)
  assume "\<not> ?thesis"
  then have inv: "\<And>v. v \<in> R \<Longrightarrow> wide (narrow v) = v" by blast
  have "inj_on narrow R"
    by (rule inj_on_inverseI[where g = wide]) (simp add: inv)
  moreover have "narrow ` R \<subseteq> {..<256}"
    using assms(1) by (auto simp: representable_def)
  ultimately have "card R \<le> card {..<256::nat}"
    by (rule card_inj_on_le) simp
  then show False using assms(2) by simp
qed

text \<open>
  Claim C9 as stated fails: not every representable source value comes back. A half has
  65536 patterns. Whatever \<open>scaled_convert\<close> is, as long as it returns values of its
  result type, there is no set of more than 256 values for which converting a one-element
  half cache into a byte cache and back, with the passthrough tag and scale 1, reproduces
  the element.
\<close>

theorem passthrough_round_trip_not_exact:
  "256 < card {v. representable c_uint16_t v}
   \<and> \<not> (\<exists>(scaled_convert :: ctype \<Rightarrow> ctype \<Rightarrow> Fp8KVCacheDataType \<Rightarrow> nat \<Rightarrow> int \<Rightarrow> nat) R.
         returns_Tout scaled_convert \<and> 256 < card R
       \<and> (\<forall>v \<in> R.
            (\<exists>k1 k2 st1 st2.
                convert_fp8 scaled_convert
                  \<lparr>data_ptr = 2, device = Device CUDA 0, dtype = kByte, sizes = [1, 1], strides = [1, 1]\<rparr>
                  \<lparr>data_ptr = 1, device = Device CUDA 0, dtype = kHalf, sizes = [1, 1], strides = [1, 1]\<rparr>
                  1 ''auto'' = (None, [k1])
              \<and> k1 (\<lambda>p. if p = 1 then [v] else [0]) = Some st1
              \<and> convert_fp8 scaled_convert
                  \<lparr>data_ptr = 1, device = Device CUDA 0, dtype = kHalf, sizes = [1, 1], strides = [1, 1]\<rparr>
                  \<lparr>data_ptr = 2, device = Device CUDA 0, dtype = kByte, sizes = [1, 1], strides = [1, 1]\<rparr>
                  1 ''auto'' = (None, [k2])
              \<and> k2 st1 = Some st2
              \<and> st2 1 = [v])))"
proof (rule conjI)
  have "{v. representable c_uint16_t v} = {..<65536}"
    by (auto simp: representable_def)
  then show "256 < card {v. representable c_uint16_t v}" by simp
next
  show "\<not> (\<exists>(scaled_convert :: ctype \<Rightarrow> ctype \<Rightarrow> Fp8KVCacheDataType \<Rightarrow> nat \<Rightarrow> int \<Rightarrow> nat) R.
         returns_Tout scaled_convert \<and> 256 < card R
       \<and> (\<forall>v \<in> R.
            (\<exists>k1 k2 st1 st2.
                convert_fp8 scaled_convert
                  \<lparr>data_ptr = 2, device = Device CUDA 0, dtype = kByte, sizes = [1, 1], strides = [1, 1]\<rparr>
                  \<lparr>data_ptr = 1, device = Device CUDA 0, dtype = kHalf, sizes = [1, 1], strides = [1, 1]\<rparr>
                  1 ''auto'' = (None, [k1])
              \<and> k1 (\<lambda>p. if p = 1 then [v] else [0]) = Some st1
              \<and> convert_fp8 scaled_convert
                  \<lparr>data_ptr = 1, device = Device CUDA 0, dtype = kHalf, sizes = [1, 1], strides = [1, 1]\<rparr>
                  \<lparr>data_ptr = 2, device = Device CUDA 0, dtype = kByte, sizes = [1, 1], strides = [1, 1]\<rparr>
                  1 ''auto'' = (None, [k2])
              \<and> k2 st1 = Some st2
              \<and> st2 1 = [v])))"
  proof
    let ?a = "\<lparr>data_ptr = 1, device = Device CUDA 0, dtype = kHalf, sizes = [1, 1], strides = [1, 1]\<rparr>"
    let ?b = "\<lparr>data_ptr = 2, device = Device CUDA 0, dtype = kByte, sizes = [1, 1], strides = [1, 1]\<rparr>"
    assume "\<exists>(scaled_convert :: ctype \<Rightarrow> ctype \<Rightarrow> Fp8KVCacheDataType \<Rightarrow> nat \<Rightarrow> int \<Rightarrow> nat) R.
           returns_Tout scaled_convert \<and> 256 < card R
         \<and> (\<forall>v \<in> R.
              (\<exists>k1 k2 st1 st2.
                  convert_fp8 scaled_convert ?b ?a 1 ''auto'' = (None, [k1])
                \<and> k1 (\<lambda>p. if p = 1 then [v] else [0]) = Some st1
                \<and> convert_fp8 scaled_convert ?a ?b 1 ''auto'' = (None, [k2])
                \<and> k2 st1 = Some st2
                \<and> st2 1 = [v]))"
    then obtain sc :: "ctype \<Rightarrow> ctype \<Rightarrow> Fp8KVCacheDataType \<Rightarrow> nat \<Rightarrow> int \<Rightarrow> nat" and R
      where typed: "returns_Tout sc" and many: "256 < card R"
        and exact: "\<And>v. v \<in> R \<Longrightarrow>
              \<exists>k1 k2 st1 st2.
                  convert_fp8 sc ?b ?a 1 ''auto'' = (None, [k1])
                \<and> k1 (\<lambda>p. if p = 1 then [v] else [0]) = Some st1
                \<and> convert_fp8 sc ?a ?b 1 ''auto'' = (None, [k2])
                \<and> k2 st1 = Some st2
                \<and> st2 1 = [v]"
      by blast
    define narrow where "narrow = (\<lambda>v. sc c_uint8_t c_uint16_t kAuto v 1)"
    define wide where "wide = (\<lambda>v. sc c_uint16_t c_uint8_t kAuto v 1)"
    have h1: "is_cuda (device ?a)" "is_cuda (device ?b)" "index (device ?a) = index (device ?b)"
      by (simp_all add: is_cuda_def)
    have t1: "convert_fp8_types (dtype ?a) (dtype ?b) = Some (c_uint8_t, c_uint16_t)"
      and t2: "convert_fp8_types (dtype ?b) (dtype ?a) = Some (c_uint16_t, c_uint8_t)"
      by (simp_all add: convert_fp8_types_def)
    have h3: "size_of ?a 0 = Inr 1" "stride_of ?a 0 = Inr 1" "size_of ?b 0 = Inr 1" "stride_of ?b 0 = Inr 1"
      by (simp_all add: size_of_def stride_of_def)
    have h5: "data_ptr ?a \<noteq> data_ptr ?b" by simp
    have inverse: "wide (narrow v) = v" if v: "v \<in> R" for v
    proof -
      let ?st = "\<lambda>p::nat. if p = 1 then [v] else [0::nat]"
      have h4: "1 * 1 \<le> int (length (?st (data_ptr ?a)))" "1 * 1 \<le> int (length (?st (data_ptr ?b)))"
        by simp_all
      from convert_fp8_there_and_back[OF h1 t1 t2 h3 h4 h5, of sc 1]
      obtain k1 k2 st1 st2 where c1: "convert_fp8 sc ?b ?a 1 ''auto'' = (None, [k1])"
        and r1: "k1 ?st = Some st1"
        and c2: "convert_fp8 sc ?a ?b 1 ''auto'' = (None, [k2])"
        and r2: "k2 st1 = Some st2"
        and inside: "\<forall>j. 0 \<le> j \<and> j < 1 * 1 \<longrightarrow>
            load st1 (data_ptr ?b) j = map_option (\<lambda>v. sc c_uint8_t c_uint16_t kAuto v 1) (load ?st (data_ptr ?a) j)
          \<and> load st2 (data_ptr ?a) j
              = map_option (\<lambda>v. sc c_uint16_t c_uint8_t kAuto (sc c_uint8_t c_uint16_t kAuto v 1) 1)
                  (load ?st (data_ptr ?a) j)
          \<and> load ?st (data_ptr ?a) j \<noteq> None"
        by blast
      from exact[OF v] obtain k1' k2' st1' st2'
        where c1': "convert_fp8 sc ?b ?a 1 ''auto'' = (None, [k1'])"
        and r1': "k1' ?st = Some st1'"
        and c2': "convert_fp8 sc ?a ?b 1 ''auto'' = (None, [k2'])"
        and r2': "k2' st1' = Some st2'"
        and res: "st2' 1 = [v]"
        by blast
      have "k1' = k1" "k2' = k2" using c1 c1' c2 c2' by simp_all
      then have "st2' = st2" using r1 r1' r2 r2' by simp
      then have "load st2 1 0 = Some v" using res by (simp add: load_def)
      moreover have "load st2 1 0 = Some (wide (narrow v))"
        using inside[THEN spec, of 0] by (simp add: load_def wide_def narrow_def)
      ultimately show ?thesis by simp
    qed
    have "\<forall>v. representable c_uint8_t (narrow v)"
      using typed by (simp add: returns_Tout_def narrow_def)
    from narrow_cells_lose_wide_values[OF this many, of wide] inverse show False by blast
  qed
qed

end
